theory Spec2Isabelle
  imports Complex_Main "HOL-Library.Word"
begin

unbundle bit_operations_syntax

section \<open>NeuroPet behaviour core: a shallow embedding\<close>

text \<open>
  The firmware computes with IEEE-754 single-precision numbers (\<^verbatim>\<open>float\<close>).
  Here every \<^verbatim>\<open>float\<close> of the needs simulator, the feature vector, the decision
  engine and the online learner is a \<^typ>\<open>real\<close>: the arithmetic is exact, the decimal
  constants of the source (\<^verbatim>\<open>0.4f\<close>, \<^verbatim>\<open>0.15f\<close>, ...) are the decimal fractions
  they are written as, and NaN and the infinities do not exist. Where the source only
  copies a \<^verbatim>\<open>float\<close> (loading a model), the number is kept as its 32-bit pattern.
  The unsigned machine integers (\<^verbatim>\<open>uint32_t\<close> millisecond clocks and counters) are
  words and wrap around as in C.
\<close>

subsection \<open>Needs simulator (core\_state.h, core\_state.cpp)\<close>

record PetState =
  hunger :: real
  energy :: real
  affection_need :: real
  trust :: real
  stress :: real

datatype PetAction =
    ACTION_SLEEP
  | ACTION_IDLE
  | ACTION_PLAY
  | ACTION_ASK_FOOD
  | ACTION_ASK_PET
  | ACTION_HAPPY
  | ACTION_ANNOYED
  | ACTION_SAD

record InteractionStats =
  last_interaction_ms :: "32 word"
  feed_count_1m :: "16 word"
  feed_count_5m :: "16 word"
  pet_count_1m :: "16 word"
  pet_count_5m :: "16 word"
  ignore_start_ms :: "32 word"
  spam_score :: real

record StateConfig =
  hunger_rate :: real
  energy_decay_rate :: real
  energy_regen_rate :: real
  affection_decay_rate :: real
  stress_decay_rate :: real
  trust_decay_rate :: real
  feed_hunger_reduction :: real
  feed_stress_reduction :: real
  pet_affection_reduction :: real
  pet_stress_reduction :: real
  spam_penalty :: real

definition clamp01 :: "real \<Rightarrow> real" where
  "clamp01 v = (if v < 0 then 0 else if v > 1 then 1 else v)"

definition core_state_init :: PetState where
  "core_state_init =
     \<lparr>hunger = 0.3, energy = 0.7, affection_need = 0.4, trust = 0.5, stress = 0.2\<rparr>"

definition core_state_config_init :: StateConfig where
  "core_state_config_init =
     \<lparr>hunger_rate = 0.001, energy_decay_rate = 0.0008, energy_regen_rate = 0.002,
      affection_decay_rate = 0.0005, stress_decay_rate = 0.0003,
      trust_decay_rate = 0.00001,
      feed_hunger_reduction = 0.4, feed_stress_reduction = 0.05,
      pet_affection_reduction = 0.35, pet_stress_reduction = 0.1,
      spam_penalty = 0.7\<rparr>"

definition core_state_stats_init :: InteractionStats where
  "core_state_stats_init =
     \<lparr>last_interaction_ms = 0, feed_count_1m = 0, feed_count_5m = 0,
      pet_count_1m = 0, pet_count_5m = 0, ignore_start_ms = 0, spam_score = 0\<rparr>"

text \<open>
  \<^verbatim>\<open>core_state_update\<close>: the five assignments in the order of the source; the stress
  terms read the hunger, energy and affection need that were just written.
\<close>

definition core_state_update ::
  "PetState \<Rightarrow> StateConfig \<Rightarrow> 32 word \<Rightarrow> PetAction \<Rightarrow> PetState" where
  "core_state_update state config delta_ms current_action =
     (let dt = real (unat delta_ms) / 1000;
          s1 = state\<lparr>hunger := clamp01 (hunger state + hunger_rate config * dt)\<rparr>;
          s2 = (if current_action = ACTION_SLEEP
                then s1\<lparr>energy := clamp01 (energy s1 + energy_regen_rate config * dt)\<rparr>
                else s1\<lparr>energy := clamp01 (energy s1 - energy_decay_rate config * dt)\<rparr>);
          s3 = s2\<lparr>affection_need :=
                    clamp01 (affection_need s2 + affection_decay_rate config * dt)\<rparr>;
          c0 = - stress_decay_rate config * dt;
          c1 = (if hunger s3 > 0.7
                then c0 + 0.0005 * dt * (hunger s3 - 0.7) / 0.3 else c0);
          c2 = (if energy s3 < 0.2
                then c1 + 0.0003 * dt * (0.2 - energy s3) / 0.2 else c1);
          stress_change = (if affection_need s3 > 0.8 then c2 + 0.0002 * dt else c2);
          s4 = s3\<lparr>stress := clamp01 (stress s3 + stress_change)\<rparr>
      in s4\<lparr>trust := clamp01 (trust s4 - trust_decay_rate config * dt)\<rparr>)"

text \<open>
  \<^verbatim>\<open>core_state_feed\<close> and \<^verbatim>\<open>core_state_pet\<close> mutate the state and the
  statistics through pointers; the model returns both.
\<close>

definition core_state_feed ::
  "PetState \<Rightarrow> StateConfig \<Rightarrow> InteractionStats \<Rightarrow> PetState \<times> InteractionStats" where
  "core_state_feed state config stats =
     (let effectiveness = 1 - spam_score stats * spam_penalty config;
          hunger_before = hunger state;
          s1 = state\<lparr>hunger :=
                  clamp01 (hunger state - feed_hunger_reduction config * effectiveness)\<rparr>;
          s2 = s1\<lparr>stress :=
                  clamp01 (stress s1 - feed_stress_reduction config * effectiveness)\<rparr>;
          was_hungry = (hunger_before > 0.5);
          s3 = (if was_hungry \<and> effectiveness > 0.5
                then s2\<lparr>trust := clamp01 (trust s2 + 0.02)\<rparr> else s2);
          s4 = (if hunger_before < 0.2
                then s3\<lparr>stress := clamp01 (stress s3 + 0.03)\<rparr> else s3)
      in (s4, stats\<lparr>spam_score := clamp01 (spam_score stats + 0.15)\<rparr>))"

definition core_state_pet ::
  "PetState \<Rightarrow> StateConfig \<Rightarrow> InteractionStats \<Rightarrow> PetState \<times> InteractionStats" where
  "core_state_pet state config stats =
     (let effectiveness = 1 - spam_score stats * spam_penalty config;
          affection_before = affection_need state;
          s1 = state\<lparr>affection_need :=
                  clamp01 (affection_need state
                           - pet_affection_reduction config * effectiveness)\<rparr>;
          s2 = s1\<lparr>stress :=
                  clamp01 (stress s1 - pet_stress_reduction config * effectiveness)\<rparr>;
          needed_affection = (affection_before > 0.5);
          s3 = (if needed_affection \<and> effectiveness > 0.5
                then s2\<lparr>trust := clamp01 (trust s2 + 0.015)\<rparr> else s2);
          s4 = (if affection_before < 0.15
                then s3\<lparr>stress := clamp01 (stress s3 + 0.02)\<rparr> else s3)
      in (s4, stats\<lparr>spam_score := clamp01 (spam_score stats + 0.15)\<rparr>))"

text \<open>
  \<^verbatim>\<open>core_state_update_stats\<close>: \<^verbatim>\<open>dt\<close> is an unsigned 32-bit difference of the
  current time and the time of the last interaction.
\<close>

definition core_state_update_stats :: "InteractionStats \<Rightarrow> 32 word \<Rightarrow> InteractionStats" where
  "core_state_update_stats stats current_ms =
     (let decay = 0.0005;
          dt = current_ms - last_interaction_ms stats
      in if dt > 0 \<and> dt < 60000
         then stats\<lparr>spam_score := clamp01 (spam_score stats - decay * real (unat dt))\<rparr>
         else stats)"

text \<open>A sequence of calls on the simulator, and the states it passes through.\<close>

datatype needs_call = Tick "32 word" PetAction | Feed | Pet

fun apply_call ::
  "StateConfig \<Rightarrow> needs_call \<Rightarrow> PetState \<times> InteractionStats \<Rightarrow> PetState \<times> InteractionStats" where
  "apply_call config (Tick delta_ms a) (state, stats) =
     (core_state_update state config delta_ms a, stats)"
| "apply_call config Feed (state, stats) = core_state_feed state config stats"
| "apply_call config Pet (state, stats) = core_state_pet state config stats"

fun states_after ::
  "StateConfig \<Rightarrow> needs_call list \<Rightarrow> PetState \<times> InteractionStats \<Rightarrow> PetState list" where
  "states_after config [] p = []"
| "states_after config (c # cs) p =
     (let p' = apply_call config c p in fst p' # states_after config cs p')"

definition in01 :: "real \<Rightarrow> bool" where
  "in01 v = (0 \<le> v \<and> v \<le> 1)"

definition needs_in_range :: "PetState \<Rightarrow> bool" where
  "needs_in_range s =
     (in01 (hunger s) \<and> in01 (energy s) \<and> in01 (affection_need s)
      \<and> in01 (trust s) \<and> in01 (stress s))"

text \<open>Feeding \<open>n\<close> times in a row, with no other call in between.\<close>

fun feed_times ::
  "nat \<Rightarrow> StateConfig \<Rightarrow> PetState \<times> InteractionStats \<Rightarrow> PetState \<times> InteractionStats" where
  "feed_times 0 config p = p"
| "feed_times (Suc n) config p =
     (let p' = feed_times n config p in core_state_feed (fst p') config (snd p'))"

subsection \<open>Feature vector and decision output (logger.h, core\_state.h)\<close>

record Features =
  hunger :: real
  energy :: real
  affection_need :: real
  trust :: real
  stress :: real
  dt_seconds_norm :: real
  feed_count_5m_norm :: real
  pet_count_5m_norm :: real
  ignore_time_norm :: real
  time_of_day_sin :: real
  time_of_day_cos :: real
  spam_score_norm :: real

record BrainOutput =
  action_id :: PetAction
  valence :: real
  arousal :: real

text \<open>A feature vector for the examples: a hungry, tired pet at midnight.\<close>

definition features_example :: Features where
  "features_example =
     \<lparr>hunger = 0.9, energy = 0.1, affection_need = 0.7, trust = 0.5, stress = 0.7,
      dt_seconds_norm = 0, feed_count_5m_norm = 0, pet_count_5m_norm = 0,
      ignore_time_norm = 0, time_of_day_sin = 0, time_of_day_cos = 1,
      spam_score_norm = 0\<rparr>"

subsection \<open>Rule-based decision (brain\_fallback)\<close>

text \<open>
  The source returns at once when one of its two pointers is null; here the features are
  a value and the output is returned. The function is written in its two parts: the
  ladder (\<open>fallback_rules\<close>), which starts from idle and overwrites it in the first
  branch that applies, and the end of the function, which shifts the valence by the trust
  and clamps both numbers.
\<close>

definition fallback_rules :: "Features \<Rightarrow> BrainOutput" where
  "fallback_rules features =
     (let hunger = Features.hunger features;
          energy = Features.energy features;
          affection = Features.affection_need features;
          stress = Features.stress features
      in if energy < 0.2 then
           \<lparr>action_id = ACTION_SLEEP, valence = 0, arousal = 0.1\<rparr>
         else if hunger > 0.7 then
           \<lparr>action_id = ACTION_ASK_FOOD, valence = - 0.3, arousal = 0.5 + hunger * 0.3\<rparr>
         else if affection > 0.6 then
           \<lparr>action_id = ACTION_ASK_PET, valence = - 0.1, arousal = 0.4\<rparr>
         else if stress > 0.6 then
           \<lparr>action_id = ACTION_ANNOYED, valence = - 0.5, arousal = 0.6\<rparr>
         else if hunger < 0.3 \<and> energy > 0.5 \<and> affection < 0.3 then
           (if dt_seconds_norm features > 0.5 then
              \<lparr>action_id = ACTION_SAD, valence = - 0.2, arousal = 0.2\<rparr>
            else
              \<lparr>action_id = ACTION_HAPPY, valence = 0.7, arousal = 0.5\<rparr>)
         else if energy > 0.6 \<and> stress < 0.3 then
           \<lparr>action_id = ACTION_PLAY, valence = 0.4, arousal = 0.6\<rparr>
         else \<lparr>action_id = ACTION_IDLE, valence = 0, arousal = 0.3\<rparr>)"

definition clamp_range :: "real \<Rightarrow> real \<Rightarrow> real \<Rightarrow> real" where
  "clamp_range lo hi v = (let v1 = (if v < lo then lo else v) in if v1 > hi then hi else v1)"

definition brain_fallback :: "Features \<Rightarrow> BrainOutput" where
  "brain_fallback features =
     (let out = fallback_rules features;
          v = valence out + (Features.trust features - 0.5) * 0.3
      in out\<lparr>valence := clamp_range (- 1) 1 v, arousal := clamp_range 0 1 (arousal out)\<rparr>)"

subsection \<open>Event journal (logger.h, logger.cpp)\<close>

text \<open>
  \<^verbatim>\<open>LOG_MAX_EVENTS\<close> is 100. \<^verbatim>\<open>g_head\<close> and \<^verbatim>\<open>g_count\<close> are \<^verbatim>\<open>uint16_t\<close>;
  C computes \<^verbatim>\<open>(g_head + 1) % LOG_MAX_EVENTS\<close> and \<^verbatim>\<open>(start + index) % LOG_MAX_EVENTS\<close>
  on \<^verbatim>\<open>int\<close>, where nothing wraps, so they are natural numbers here. The clock
  \<^verbatim>\<open>millis()\<close> is an argument of the call. A null pointer is \<open>None\<close>: the fields
  behind it keep what the slot held before.
\<close>

datatype InputEventType =
    INPUT_NONE
  | INPUT_FEED_SHORT
  | INPUT_FEED_LONG
  | INPUT_FEED_DOUBLE
  | INPUT_PET_SHORT
  | INPUT_PET_LONG
  | INPUT_PET_DOUBLE
  | INPUT_IGNORE

record LogEntry =
  timestamp :: "32 word"
  input_event :: InputEventType
  features :: Features
  model_action :: PetAction
  model_valence :: real
  model_arousal :: real
  state_after :: PetState

definition LOG_MAX_EVENTS :: nat where
  "LOG_MAX_EVENTS = 100"

record Logger =
  g_buffer :: "LogEntry list"
  g_head :: nat
  g_count :: nat
  g_initialized :: bool

definition logger_init :: "Logger \<Rightarrow> Logger" where
  "logger_init lg = lg\<lparr>g_head := 0, g_count := 0, Logger.g_initialized := True\<rparr>"

text \<open>The arguments of one \<^verbatim>\<open>logger_log_event\<close> call, with the clock.\<close>

datatype log_call =
  LogCall "32 word" InputEventType "Features option" "BrainOutput option" "PetState option"

text \<open>What the call writes into the slot \<^verbatim>\<open>g_buffer[g_head]\<close>.\<close>

fun write_entry :: "log_call \<Rightarrow> LogEntry \<Rightarrow> LogEntry" where
  "write_entry (LogCall millis event feats brain_output st) entry =
     (let e1 = entry\<lparr>timestamp := millis div 1000, input_event := event\<rparr>;
          e2 = (case feats of None \<Rightarrow> e1 | Some f \<Rightarrow> e1\<lparr>LogEntry.features := f\<rparr>);
          e3 = (case brain_output of None \<Rightarrow> e2
                | Some b \<Rightarrow> e2\<lparr>model_action := action_id b, model_valence := valence b,
                                model_arousal := arousal b\<rparr>)
      in case st of None \<Rightarrow> e3 | Some s \<Rightarrow> e3\<lparr>state_after := s\<rparr>)"

definition logger_log_event :: "log_call \<Rightarrow> Logger \<Rightarrow> Logger" where
  "logger_log_event c lg =
     (if \<not> Logger.g_initialized lg then lg
      else
        (let lg1 = lg\<lparr>Logger.g_buffer :=
                        (Logger.g_buffer lg)[g_head lg :=
                           write_entry c (Logger.g_buffer lg ! g_head lg)],
                      g_head := (g_head lg + 1) mod LOG_MAX_EVENTS\<rparr>
         in if g_count lg1 < LOG_MAX_EVENTS then lg1\<lparr>g_count := g_count lg1 + 1\<rparr>
            else lg1))"

definition logger_get_count :: "Logger \<Rightarrow> nat" where
  "logger_get_count lg = g_count lg"

text \<open>\<^verbatim>\<open>logger_get_event\<close> returns false, here \<open>None\<close>, or copies the entry out.\<close>

definition logger_get_event :: "nat \<Rightarrow> Logger \<Rightarrow> LogEntry option" where
  "logger_get_event index lg =
     (if \<not> Logger.g_initialized lg \<or> index \<ge> g_count lg then None
      else
        (let start = (if g_count lg = LOG_MAX_EVENTS then g_head lg else 0);
             pos = (start + index) mod LOG_MAX_EVENTS
         in Some (Logger.g_buffer lg ! pos)))"

text \<open>Logging a list of events one after the other.\<close>

definition log_all :: "log_call list \<Rightarrow> Logger \<Rightarrow> Logger" where
  "log_all cs lg = fold logger_log_event cs lg"

text \<open>A call that passes all three pointers, as every call in main.cpp does.\<close>

fun complete_call :: "log_call \<Rightarrow> bool" where
  "complete_call (LogCall millis event feats brain_output st) =
     (feats \<noteq> None \<and> brain_output \<noteq> None \<and> st \<noteq> None)"

text \<open>The static buffer of the program start: every byte zero.\<close>

definition log_entry_zero :: LogEntry where
  "log_entry_zero =
     \<lparr>timestamp = 0, input_event = INPUT_NONE,
      features = \<lparr>hunger = 0, energy = 0, affection_need = 0, trust = 0, stress = 0,
        dt_seconds_norm = 0, feed_count_5m_norm = 0, pet_count_5m_norm = 0,
        ignore_time_norm = 0, time_of_day_sin = 0, time_of_day_cos = 0,
        spam_score_norm = 0\<rparr>,
      model_action = ACTION_SLEEP, model_valence = 0, model_arousal = 0,
      state_after = \<lparr>PetState.hunger = 0, PetState.energy = 0, PetState.affection_need = 0,
        PetState.trust = 0, PetState.stress = 0\<rparr>\<rparr>"

definition logger_boot :: Logger where
  "logger_boot =
     \<lparr>g_buffer = replicate 100 log_entry_zero, g_head = 0, g_count = 0,
      g_initialized = False\<rparr>"

text \<open>The record of a complete call: no field is left from the slot's past.\<close>

definition entry_of :: "log_call \<Rightarrow> LogEntry" where
  "entry_of c = write_entry c log_entry_zero"

text \<open>
  An entry records a call when it holds everything the call wrote: the time stamp, the
  kind of event, and what was behind each pointer the call passed.
\<close>

fun records :: "log_call \<Rightarrow> LogEntry \<Rightarrow> bool" where
  "records (LogCall millis event feats brain_output st) entry =
     (timestamp entry = millis div 1000 \<and> input_event entry = event
      \<and> (case feats of None \<Rightarrow> True | Some f \<Rightarrow> LogEntry.features entry = f)
      \<and> (case brain_output of None \<Rightarrow> True
          | Some b \<Rightarrow> model_action entry = action_id b \<and> model_valence entry = valence b
                      \<and> model_arousal entry = arousal b)
      \<and> (case st of None \<Rightarrow> True | Some s \<Rightarrow> state_after entry = s))"

text \<open>
  The journal after the calls \<open>cs\<close>: the last 100 of them sit in the slots given by
  their position modulo 100.
\<close>

definition journal_inv :: "log_call list \<Rightarrow> Logger \<Rightarrow> bool" where
  "journal_inv cs lg =
     (Logger.g_initialized lg \<and> length (Logger.g_buffer lg) = 100
      \<and> g_count lg = min (length cs) 100 \<and> g_head lg = length cs mod 100
      \<and> (\<forall>j < length cs. length cs - j \<le> 100 \<longrightarrow>
            records (cs ! j) (Logger.g_buffer lg ! (j mod 100))))"

text \<open>A run of 150 complete calls, one a second, for the examples.\<close>

definition journal_example :: "log_call list" where
  "journal_example =
     map (\<lambda>k. LogCall (of_nat k * 1000) INPUT_FEED_SHORT (Some features_example)
                 (Some (brain_fallback features_example)) (Some core_state_init))
       [0..<150]"

subsection \<open>Online learner (online\_learn.cpp)\<close>

text \<open>
  \<^verbatim>\<open>ACTION_COUNT\<close> is 8, \<^verbatim>\<open>LEARNING_RATE\<close> 0.1, \<^verbatim>\<open>DECAY_RATE\<close> 0.99 and
  \<^verbatim>\<open>MAX_BUFFER_SIZE\<close> 16. The module's globals are the fields of one record; the
  experience buffer is an array of 16 slots of which the first \<^verbatim>\<open>g_buffer_count\<close>
  are in use. Printing to the serial line is left out.
\<close>

definition LEARNING_RATE :: real where
  "LEARNING_RATE = 0.1"

definition DECAY_RATE :: real where
  "DECAY_RATE = 0.99"

definition MAX_BUFFER_SIZE :: "8 word" where
  "MAX_BUFFER_SIZE = 16"

record Experience =
  features :: "real list"
  action :: "8 word"
  reward :: real

record Learner =
  g_action_biases :: "real list"
  g_buffer :: "Experience list"
  g_buffer_count :: "8 word"
  g_total_rewards :: "32 word"
  g_initialized :: bool

text \<open>The twelve floats that \<^verbatim>\<open>memcpy\<close> copies out of a feature vector.\<close>

definition features_array :: "Features \<Rightarrow> real list" where
  "features_array f =
     [Features.hunger f, Features.energy f, Features.affection_need f, Features.trust f,
      Features.stress f, dt_seconds_norm f, feed_count_5m_norm f, pet_count_5m_norm f,
      ignore_time_norm f, time_of_day_sin f, time_of_day_cos f, spam_score_norm f]"

definition online_learn_reward :: "8 word \<Rightarrow> Features \<Rightarrow> Learner \<Rightarrow> Learner" where
  "online_learn_reward reward_action feats l =
     (if \<not> g_initialized l then l
      else if reward_action \<ge> 8 then l
      else if g_buffer_count l < MAX_BUFFER_SIZE then
        l\<lparr>g_buffer := (g_buffer l)[unat (g_buffer_count l) :=
                          \<lparr>features = features_array feats, action = reward_action,
                           reward = 1\<rparr>],
          g_buffer_count := g_buffer_count l + 1,
          g_total_rewards := g_total_rewards l + 1\<rparr>
      else l)"

text \<open>One experience: raise the rewarded action's bias, lower the seven others.\<close>

definition learn_from :: "Experience \<Rightarrow> real list \<Rightarrow> real list" where
  "learn_from ex biases =
     (let b1 = biases[unat (action ex) :=
                        biases ! unat (action ex) + LEARNING_RATE * reward ex]
      in map (\<lambda>i. if i \<noteq> unat (action ex)
                   then b1 ! i - LEARNING_RATE * reward ex * 0.1 else b1 ! i) [0..<8])"

definition online_learn_apply :: "Learner \<Rightarrow> bool \<times> Learner" where
  "online_learn_apply l =
     (if \<not> g_initialized l \<or> g_buffer_count l = 0 then (False, l)
      else
        (let decayed = map (\<lambda>b. b * DECAY_RATE) (g_action_biases l);
             learned = fold learn_from (take (unat (g_buffer_count l)) (g_buffer l)) decayed;
             clamped = map (\<lambda>b. max (- 2) (min 2 b)) learned
         in (True, l\<lparr>g_action_biases := clamped, g_buffer_count := 0\<rparr>)))"

definition online_learn_get_bias :: "Learner \<Rightarrow> 8 word \<Rightarrow> real" where
  "online_learn_get_bias l a = (if a \<ge> 8 then 0 else g_action_biases l ! unat a)"

text \<open>The learner after \<^verbatim>\<open>online_learn_init\<close> found nothing stored.\<close>

definition learner_fresh :: Learner where
  "learner_fresh =
     \<lparr>g_action_biases = replicate 8 0,
      g_buffer = replicate 16 \<lparr>features = replicate 12 0, action = 0, reward = 0\<rparr>,
      g_buffer_count = 0, g_total_rewards = 0, g_initialized = True\<rparr>"

subsection \<open>Decision engine: the weights and their loader (brain\_infer.h, brain\_infer.cpp)\<close>

text \<open>
  The topology is fixed by four constants. A weight set holds two matrices, stored row
  by row, and two bias vectors. The type \<open>'f\<close> of a \<^verbatim>\<open>float\<close> is \<^typ>\<open>real\<close> where
  the engine computes with the weights, and the 32-bit pattern where the loader copies
  them out of a byte buffer.
\<close>

definition BRAIN_INPUT_SIZE :: nat where
  "BRAIN_INPUT_SIZE = 12"

definition BRAIN_HIDDEN_SIZE :: nat where
  "BRAIN_HIDDEN_SIZE = 16"

definition BRAIN_ACTION_COUNT :: nat where
  "BRAIN_ACTION_COUNT = 8"

definition BRAIN_OUTPUT_SIZE :: nat where
  "BRAIN_OUTPUT_SIZE = 10"

record 'f BrainWeights =
  w1 :: "'f list list"
  b1 :: "'f list"
  w2 :: "'f list list"
  b2 :: "'f list"

record 'f Brain =
  g_weights :: "'f BrainWeights"
  g_custom_model_loaded :: bool
  g_model_version :: "32 word"

text \<open>
  \<^verbatim>\<open>memcpy\<close> of four bytes into a 32-bit object, and the read of a \<^verbatim>\<open>float\<close>
  through the cast pointer: the byte at the lowest address is the least significant one
  (the ESP32 is little-endian).
\<close>

definition read_u32 :: "8 word list \<Rightarrow> nat \<Rightarrow> 32 word" where
  "read_u32 data off =
     ucast (data ! off) OR push_bit 8 (ucast (data ! (off + 1)))
     OR push_bit 16 (ucast (data ! (off + 2))) OR push_bit 24 (ucast (data ! (off + 3)))"

text \<open>\<^verbatim>\<open>fdata[idx]\<close>, where \<^verbatim>\<open>fdata\<close> points behind the 4-byte version.\<close>

definition fdata :: "8 word list \<Rightarrow> nat \<Rightarrow> 32 word" where
  "fdata data idx = read_u32 data (4 + 4 * idx)"

definition expected_size :: "32 word" where
  "expected_size =
     of_nat (BRAIN_INPUT_SIZE * BRAIN_HIDDEN_SIZE + BRAIN_HIDDEN_SIZE
             + BRAIN_HIDDEN_SIZE * BRAIN_OUTPUT_SIZE + BRAIN_OUTPUT_SIZE) * 4"

text \<open>
  \<^verbatim>\<open>brain_load_weights\<close>: \<open>size'\<close> is the length of the buffer \<open>data\<close>, as the
  callers pass it. The running index \<^verbatim>\<open>idx\<close> of the four loops is written out: the
  loops fill \<^verbatim>\<open>w1\<close> from index 0, \<^verbatim>\<open>b1\<close> from 192, \<^verbatim>\<open>w2\<close> from 208 and
  \<^verbatim>\<open>b2\<close> from 368.
\<close>

definition brain_load_weights ::
  "32 word Brain \<Rightarrow> 8 word list \<Rightarrow> 32 word \<Rightarrow> bool \<times> 32 word Brain" where
  "brain_load_weights b data size' =
     (if size' < expected_size + 4 then (False, b)
      else
        (let version = read_u32 data 0;
             idx1 = BRAIN_INPUT_SIZE * BRAIN_HIDDEN_SIZE;
             idx2 = idx1 + BRAIN_HIDDEN_SIZE;
             idx3 = idx2 + BRAIN_HIDDEN_SIZE * BRAIN_OUTPUT_SIZE;
             new_w1 = map (\<lambda>i. map (\<lambda>j. fdata data (i * BRAIN_HIDDEN_SIZE + j))
                                   [0..<BRAIN_HIDDEN_SIZE]) [0..<BRAIN_INPUT_SIZE];
             new_b1 = map (\<lambda>j. fdata data (idx1 + j)) [0..<BRAIN_HIDDEN_SIZE];
             new_w2 = map (\<lambda>i. map (\<lambda>j. fdata data (idx2 + i * BRAIN_OUTPUT_SIZE + j))
                                   [0..<BRAIN_OUTPUT_SIZE]) [0..<BRAIN_HIDDEN_SIZE];
             new_b2 = map (\<lambda>j. fdata data (idx3 + j)) [0..<BRAIN_OUTPUT_SIZE]
         in (True,
             b\<lparr>g_model_version := version,
               g_weights := \<lparr>w1 = new_w1, b1 = new_b1, w2 = new_w2, b2 = new_b2\<rparr>,
               g_custom_model_loaded := True\<rparr>)))"

definition brain_has_custom_model :: "'f Brain \<Rightarrow> bool" where
  "brain_has_custom_model b = g_custom_model_loaded b"

text \<open>
  \<^verbatim>\<open>on_model_uploaded\<close> of main.cpp: the engine's weights together with the flag
  \<^verbatim>\<open>g_use_fallback_brain\<close>, which chooses between the rule-based and the learned
  decision. The notifications to the serial line and the web clients are left out.
\<close>

definition on_model_uploaded ::
  "32 word Brain \<times> bool \<Rightarrow> 8 word list \<Rightarrow> 32 word \<Rightarrow> bool \<Rightarrow> 32 word Brain \<times> bool" where
  "on_model_uploaded st data size' success =
     (if success then
        (let r = brain_load_weights (fst st) data size'
         in if fst r then (snd r, False) else (snd r, snd st))
      else st)"

text \<open>A weight set of the right shape with every float the pattern \<open>x\<close>, for examples.\<close>

definition weights_const :: "'f \<Rightarrow> 'f BrainWeights" where
  "weights_const x =
     \<lparr>w1 = replicate 12 (replicate 16 x), b1 = replicate 16 x,
      w2 = replicate 16 (replicate 10 x), b2 = replicate 10 x\<rparr>"

definition brain_example :: "32 word Brain" where
  "brain_example =
     \<lparr>g_weights = weights_const 0, g_custom_model_loaded = False, g_model_version = 0\<rparr>"

subsection \<open>Decision engine: the learned decision (brain\_infer.cpp)\<close>

definition relu :: "real \<Rightarrow> real" where
  "relu x = (if x > 0 then x else 0)"

definition sigmoid :: "real \<Rightarrow> real" where
  "sigmoid x = 1 / (1 + exp (- x))"

definition tanh_f :: "real \<Rightarrow> real" where
  "tanh_f x = tanh x"

text \<open>
  \<^verbatim>\<open>softmax\<close> works in place on the first \<open>size'\<close> elements of the array: the
  maximum by a forward scan, the exponentials of the differences and their sum, and the
  division by the sum. The rest of the array is left as it is.
\<close>

definition softmax :: "real list \<Rightarrow> nat \<Rightarrow> real list" where
  "softmax input size' =
     (let max_val = fold (\<lambda>i m. if input ! i > m then input ! i else m) [1..<size'] (input ! 0);
          exps = map (\<lambda>i. exp (input ! i - max_val)) [0..<size'];
          sum = fold (\<lambda>e s. s + e) exps 0
      in map (\<lambda>e. e / sum) exps @ drop size' input)"

text \<open>
  \<^verbatim>\<open>brain_infer_raw\<close> up to its last statement: the hidden layer with ReLU, the output
  layer, and the activations of the valence (index 8) and the arousal (index 9).
\<close>

definition brain_forward :: "real BrainWeights \<Rightarrow> real list \<Rightarrow> real list" where
  "brain_forward w input =
     (let hidden = map (\<lambda>j. relu (fold (\<lambda>i h. h + input ! i * (w1 w ! i ! j))
                                         [0..<BRAIN_INPUT_SIZE] (b1 w ! j)))
                       [0..<BRAIN_HIDDEN_SIZE];
          out0 = map (\<lambda>j. fold (\<lambda>i s. s + hidden ! i * (w2 w ! i ! j))
                                [0..<BRAIN_HIDDEN_SIZE] (b2 w ! j))
                     [0..<BRAIN_OUTPUT_SIZE];
          out1 = out0[BRAIN_ACTION_COUNT := tanh_f (out0 ! BRAIN_ACTION_COUNT)]
      in out1[BRAIN_ACTION_COUNT + 1 := sigmoid (out1 ! (BRAIN_ACTION_COUNT + 1))])"

text \<open>The last statement of \<^verbatim>\<open>brain_infer_raw\<close> is the softmax over the eight actions.\<close>

definition brain_infer_raw :: "real BrainWeights \<Rightarrow> real list \<Rightarrow> real list" where
  "brain_infer_raw w input = softmax (brain_forward w input) BRAIN_ACTION_COUNT"

text \<open>The cast of an index to \<^verbatim>\<open>PetAction\<close>.\<close>

definition action_of_index :: "nat \<Rightarrow> PetAction" where
  "action_of_index i =
     [ACTION_SLEEP, ACTION_IDLE, ACTION_PLAY, ACTION_ASK_FOOD, ACTION_ASK_PET, ACTION_HAPPY,
      ACTION_ANNOYED, ACTION_SAD] ! i"

text \<open>
  The loop that finds the best action: a forward scan that moves on only when an entry
  is strictly greater than the best so far.
\<close>

definition best_action_scan :: "real list \<Rightarrow> nat \<times> real" where
  "best_action_scan raw_output =
     fold (\<lambda>i (best_action, best_prob).
             if raw_output ! i > best_prob then (i, raw_output ! i)
             else (best_action, best_prob))
       [1..<BRAIN_ACTION_COUNT] (0, raw_output ! 0)"

text \<open>Adding the learner's bias to each of the first eight entries.\<close>

definition add_biases :: "Learner \<Rightarrow> real list \<Rightarrow> real list" where
  "add_biases l raw_output =
     map (\<lambda>i. raw_output ! i + online_learn_get_bias l (of_nat i)) [0..<BRAIN_ACTION_COUNT]
     @ drop BRAIN_ACTION_COUNT raw_output"

text \<open>
  \<^verbatim>\<open>brain_infer\<close>: the engine's weights and the learner are arguments. The biases are
  added to the output of \<^verbatim>\<open>brain_infer_raw\<close>, that is, after its softmax.
\<close>

definition brain_infer :: "Learner \<Rightarrow> real BrainWeights \<Rightarrow> Features \<Rightarrow> BrainOutput" where
  "brain_infer l w feats =
     (let input = features_array feats;
          raw_output = add_biases l (brain_infer_raw w input);
          best_action = fst (best_action_scan raw_output)
      in \<lparr>action_id = action_of_index best_action,
          valence = raw_output ! BRAIN_ACTION_COUNT,
          arousal = raw_output ! (BRAIN_ACTION_COUNT + 1)\<rparr>)"

text \<open>
  The learned decision as the specification words it: the biases are added to the eight
  action logits first, then the softmax is taken over those eight, then the best is found.
\<close>

definition brain_infer_spec :: "Learner \<Rightarrow> real BrainWeights \<Rightarrow> Features \<Rightarrow> BrainOutput" where
  "brain_infer_spec l w feats =
     (let input = features_array feats;
          biased = add_biases l (brain_forward w input);
          probs = softmax biased BRAIN_ACTION_COUNT;
          best_action = fst (best_action_scan probs)
      in \<lparr>action_id = action_of_index best_action,
          valence = probs ! BRAIN_ACTION_COUNT,
          arousal = probs ! (BRAIN_ACTION_COUNT + 1)\<rparr>)"

text \<open>
  An engine whose logits do not depend on the features (all weights zero) and favour
  sleep by 3, and a learner that has come to favour happy by 1.5.
\<close>

definition weights_sleepy :: "real BrainWeights" where
  "weights_sleepy = (weights_const 0)\<lparr>b2 := [3, 0, 0, 0, 0, 0, 0, 0, 0, 0]\<rparr>"

definition learner_happy :: Learner where
  "learner_happy = learner_fresh\<lparr>g_action_biases := [0, 0, 0, 0, 0, 1.5, 0, 0]\<rparr>"

subsection \<open>Gesture recogniser (buttons.h, buttons.cpp)\<close>

datatype ButtonId = BUTTON_FEED | BUTTON_PET

datatype GestureType = GESTURE_NONE | GESTURE_SHORT | GESTURE_LONG | GESTURE_DOUBLE

record ButtonEvent =
  button :: ButtonId
  gesture :: GestureType
  timestamp_ms :: "32 word"

record ButtonConfig =
  debounce_ms :: "16 word"
  long_press_ms :: "16 word"
  double_press_ms :: "16 word"

record ButtonState =
  current_state :: bool
  last_raw_state :: bool
  last_change_ms :: "32 word"
  press_start_ms :: "32 word"
  press_count :: "8 word"
  pending_event :: bool
  release_time_ms :: "32 word"

definition buttons_config_init :: ButtonConfig where
  "buttons_config_init = \<lparr>debounce_ms = 50, long_press_ms = 500, double_press_ms = 300\<rparr>"

text \<open>The state that \<^verbatim>\<open>buttons_init\<close> gives each button.\<close>

definition button_state_init :: ButtonState where
  "button_state_init =
     \<lparr>current_state = False, last_raw_state = False, last_change_ms = 0,
      press_start_ms = 0, press_count = 0, pending_event = False, release_time_ms = 0\<rparr>"

text \<open>
  The body of the loop of \<^verbatim>\<open>buttons_update\<close> for one button, in its two parts. The
  first part debounces the raw reading (true when the pin reads low). Time differences
  are unsigned 32-bit; the 16-bit thresholds are widened for the comparison.
\<close>

definition debounce ::
  "ButtonConfig \<Rightarrow> 32 word \<Rightarrow> bool \<Rightarrow> ButtonState \<Rightarrow> ButtonState \<times> bool" where
  "debounce config current_ms raw state =
     (let s1 = (if raw \<noteq> last_raw_state state
                then state\<lparr>last_change_ms := current_ms, last_raw_state := raw\<rparr>
                else state);
          debounced = (if current_ms - last_change_ms s1 \<ge> ucast (debounce_ms config)
                       then raw else current_state s1)
      in (s1, debounced))"

text \<open>
  The second part turns the debounced level into gestures. It returns the events handed
  to \<^verbatim>\<open>emit_event\<close>, in order.
\<close>

definition gesture_step ::
  "ButtonConfig \<Rightarrow> ButtonId \<Rightarrow> 32 word \<Rightarrow> bool \<Rightarrow> ButtonState
     \<Rightarrow> ButtonState \<times> ButtonEvent list" where
  "gesture_step config i current_ms debounced state =
     (let was_pressed = current_state state;
          s2 = state\<lparr>current_state := debounced\<rparr>;
          s3 = (if \<not> was_pressed \<and> debounced
                then s2\<lparr>press_start_ms := current_ms, press_count := press_count s2 + 1\<rparr>
                else s2);
          r4 = (if was_pressed \<and> \<not> debounced then
                  (let press_duration = current_ms - press_start_ms s3
                   in if press_duration \<ge> ucast (long_press_ms config) then
                        (s3\<lparr>press_count := 0, pending_event := False\<rparr>,
                         [\<lparr>button = i, gesture = GESTURE_LONG, timestamp_ms = current_ms\<rparr>])
                      else (s3\<lparr>release_time_ms := current_ms, pending_event := True\<rparr>, []))
                else (s3, []));
          s4 = fst r4
      in if pending_event s4 \<and> \<not> current_state s4 then
           (let since_release = current_ms - release_time_ms s4
            in if press_count s4 \<ge> 2 then
                 (s4\<lparr>press_count := 0, pending_event := False\<rparr>,
                  snd r4 @ [\<lparr>button = i, gesture = GESTURE_DOUBLE, timestamp_ms = current_ms\<rparr>])
               else if since_release \<ge> ucast (double_press_ms config) then
                 (s4\<lparr>press_count := 0, pending_event := False\<rparr>,
                  snd r4 @ [\<lparr>button = i, gesture = GESTURE_SHORT, timestamp_ms = current_ms\<rparr>])
               else (s4, snd r4))
         else (s4, snd r4))"

definition button_step ::
  "ButtonConfig \<Rightarrow> ButtonId \<Rightarrow> 32 word \<Rightarrow> bool \<Rightarrow> ButtonState
     \<Rightarrow> ButtonState \<times> ButtonEvent list" where
  "button_step config i current_ms raw state =
     (let r = debounce config current_ms raw state
      in gesture_step config i current_ms (snd r) (fst r))"

text \<open>
  The module: its configuration, the state of the two buttons, the single-slot register
  of \<^verbatim>\<open>emit_event\<close> and whether a callback is registered. \<^verbatim>\<open>emit_event\<close> hands
  the event to the callback when there is one and otherwise overwrites the register.
\<close>

record Buttons =
  g_config :: ButtonConfig
  g_state :: "ButtonId \<Rightarrow> ButtonState"
  g_pending_event :: ButtonEvent
  g_has_pending_event :: bool
  g_callback :: bool

definition emit_event :: "ButtonEvent \<Rightarrow> Buttons \<Rightarrow> Buttons" where
  "emit_event event bs =
     (if g_callback bs then bs
      else bs\<lparr>g_pending_event := event, g_has_pending_event := True\<rparr>)"

text \<open>
  \<^verbatim>\<open>buttons_update\<close>: the loop body for the feed button, then for the pet button.
  \<open>raw\<close> gives the reading of each pin at this call. The result is the module after the
  call, the events handed to \<^verbatim>\<open>emit_event\<close> in order, and the returned flag.
\<close>

definition update_button ::
  "32 word \<Rightarrow> (ButtonId \<Rightarrow> bool) \<Rightarrow> ButtonId \<Rightarrow> Buttons \<times> ButtonEvent list
     \<Rightarrow> Buttons \<times> ButtonEvent list" where
  "update_button current_ms raw i p =
     (let bs = fst p;
          r = button_step (g_config bs) i current_ms (raw i) (g_state bs i);
          bs1 = bs\<lparr>g_state := (g_state bs)(i := fst r)\<rparr>
      in (fold emit_event (snd r) bs1, snd p @ snd r))"

definition buttons_update ::
  "32 word \<Rightarrow> (ButtonId \<Rightarrow> bool) \<Rightarrow> Buttons \<Rightarrow> Buttons \<times> ButtonEvent list \<times> bool" where
  "buttons_update current_ms raw bs =
     (let p = fold (update_button current_ms raw) [BUTTON_FEED, BUTTON_PET] (bs, [])
      in (fst p, snd p, snd p \<noteq> []))"

text \<open>
  One button over a run of updates: each sample is the time of the call and the raw
  reading; the result lists, for every call, the state after it and the events it emitted.
\<close>

fun button_trace ::
  "ButtonConfig \<Rightarrow> ButtonId \<Rightarrow> (32 word \<times> bool) list \<Rightarrow> ButtonState
     \<Rightarrow> (ButtonState \<times> ButtonEvent list) list" where
  "button_trace config i [] state = []"
| "button_trace config i ((current_ms, raw) # xs) state =
     (let r = button_step config i current_ms raw state
      in r # button_trace config i xs (fst r))"

definition trace_levels :: "(ButtonState \<times> ButtonEvent list) list \<Rightarrow> bool list" where
  "trace_levels tr = map (\<lambda>r. current_state (fst r)) tr"

definition trace_events :: "(ButtonState \<times> ButtonEvent list) list \<Rightarrow> ButtonEvent list" where
  "trace_events tr = concat (map snd tr)"

text \<open>
  A short press, a second press 100 ms after its release, held for 600 ms: times and raw
  readings of eight updates.
\<close>

definition samples_short_then_long :: "(32 word \<times> bool) list" where
  "samples_short_then_long =
     [(100, True), (150, True), (200, False), (250, False),
      (300, True), (350, True), (900, False), (950, False)]"

text \<open>The state of a button after a run of updates.\<close>

fun button_run ::
  "ButtonConfig \<Rightarrow> ButtonId \<Rightarrow> (32 word \<times> bool) list \<Rightarrow> ButtonState \<Rightarrow> ButtonState" where
  "button_run config i [] state = state"
| "button_run config i ((current_ms, raw) # xs) state =
     button_run config i xs (fst (button_step config i current_ms raw state))"

text \<open>
  The stations of a double press, read off the fields that the gesture part uses: no
  sequence under way; the first press held since \<open>t\<close>; the first press released at
  \<open>t\<close> and waiting; the second press held since \<open>t\<close>.
\<close>

definition idle :: "ButtonState \<Rightarrow> bool" where
  "idle st = (\<not> current_state st \<and> press_count st = 0 \<and> \<not> pending_event st)"

definition first_held :: "32 word \<Rightarrow> ButtonState \<Rightarrow> bool" where
  "first_held t st =
     (current_state st \<and> press_count st = 1 \<and> press_start_ms st = t \<and> \<not> pending_event st)"

definition released_waiting :: "32 word \<Rightarrow> ButtonState \<Rightarrow> bool" where
  "released_waiting t st =
     (\<not> current_state st \<and> press_count st = 1 \<and> pending_event st \<and> release_time_ms st = t)"

definition second_held :: "32 word \<Rightarrow> ButtonState \<Rightarrow> bool" where
  "second_held t st =
     (current_state st \<and> press_count st = 2 \<and> press_start_ms st = t \<and> pending_event st)"

section \<open>Properties\<close>

subsection \<open>The needs stay in range\<close>

lemma in01_clamp01: "in01 (clamp01 v)"
  by (simp add: in01_def clamp01_def)

lemma core_state_update_in_range:
  "needs_in_range s \<Longrightarrow> needs_in_range (core_state_update s config delta_ms a)"
  by (simp add: needs_in_range_def core_state_update_def Let_def in01_clamp01)

lemma core_state_feed_in_range:
  "needs_in_range s \<Longrightarrow> needs_in_range (fst (core_state_feed s config stats))"
  by (simp add: needs_in_range_def core_state_feed_def Let_def in01_clamp01)

lemma core_state_pet_in_range:
  "needs_in_range s \<Longrightarrow> needs_in_range (fst (core_state_pet s config stats))"
  by (simp add: needs_in_range_def core_state_pet_def Let_def in01_clamp01)

lemma apply_call_in_range:
  "needs_in_range (fst p) \<Longrightarrow> needs_in_range (fst (apply_call config c p))"
  by (cases p; cases c)
     (simp_all add: core_state_update_in_range core_state_feed_in_range
        core_state_pet_in_range)

lemma states_after_in_range:
  "needs_in_range (fst p) \<Longrightarrow> s \<in> set (states_after config cs p) \<Longrightarrow> needs_in_range s"
proof (induction cs arbitrary: p)
  case Nil
  then show ?case by simp
next
  case (Cons c cs)
  have step: "needs_in_range (fst (apply_call config c p))"
    using Cons.prems(1) by (rule apply_call_in_range)
  from Cons.prems(2) have "s = fst (apply_call config c p)
      \<or> s \<in> set (states_after config cs (apply_call config c p))"
    by (simp add: Let_def)
  then show ?case
    using step Cons.IH [OF step] by blast
qed

text \<open>
  Claim C1. Start from a needs state whose five fields lie in [0,1], take the default
  configuration, any interaction statistics and any sequence of tick (with any 32-bit
  millisecond delta and any current action), feed and pet calls: the needs state after
  every call of the sequence has its five fields in [0,1].
\<close>

theorem needs_state_stays_in_range:
  assumes "needs_in_range state"
  shows "\<forall>s \<in> set (states_after core_state_config_init calls (state, stats)).
           needs_in_range s"
  using assms states_after_in_range [of "(state, stats)" _ core_state_config_init calls]
  by simp

theorem needs_state_stays_in_range_witness:
  "needs_in_range core_state_init \<and>
   length (states_after core_state_config_init [Feed, Tick 2000 ACTION_SLEEP, Pet]
     (core_state_init, core_state_stats_init)) = 3 \<and>
   list_all needs_in_range
     (states_after core_state_config_init [Feed, Tick 2000 ACTION_SLEEP, Pet]
        (core_state_init, core_state_stats_init))"
proof -
  have h: "needs_in_range core_state_init"
    by (simp add: needs_in_range_def in01_def core_state_init_def)
  show ?thesis
    using h needs_state_stays_in_range [OF h, of "[Feed, Tick 2000 ACTION_SLEEP, Pet]"
        core_state_stats_init]
    by (simp add: Let_def list_all_iff)
qed

subsection \<open>The rule-based decision\<close>

text \<open>
  Claim C2. For every feature vector the rule-based engine picks its action by the ladder,
  in this order: energy below 0.2 gives sleep; else hunger above 0.7 gives ask-food; else
  affection need above 0.6 gives ask-pet; else stress above 0.6 gives annoyed; else, when
  hunger is below 0.3, energy above 0.5 and affection need below 0.3, sad when the
  normalised time since the last interaction exceeds 0.5 and happy otherwise; else play
  when energy is above 0.6 and stress below 0.3; else idle. With energy 0.1 and hunger 0.9
  the action is sleep.
\<close>

theorem brain_fallback_priority_ladder:
  "action_id (brain_fallback f) =
     (if Features.energy f < 0.2 then ACTION_SLEEP
      else if Features.hunger f > 0.7 then ACTION_ASK_FOOD
      else if Features.affection_need f > 0.6 then ACTION_ASK_PET
      else if Features.stress f > 0.6 then ACTION_ANNOYED
      else if Features.hunger f < 0.3 \<and> Features.energy f > 0.5
              \<and> Features.affection_need f < 0.3
        then (if dt_seconds_norm f > 0.5 then ACTION_SAD else ACTION_HAPPY)
      else if Features.energy f > 0.6 \<and> Features.stress f < 0.3 then ACTION_PLAY
      else ACTION_IDLE)
   \<and> (Features.energy f = 0.1 \<and> Features.hunger f = 0.9
        \<longrightarrow> action_id (brain_fallback f) = ACTION_SLEEP)"
proof -
  have "action_id (brain_fallback f) = action_id (fallback_rules f)"
    by (simp add: brain_fallback_def Let_def)
  then show ?thesis
    by (simp add: fallback_rules_def Let_def)
qed

theorem brain_fallback_priority_ladder_witness:
  "Features.energy features_example = 0.1 \<and> Features.hunger features_example = 0.9 \<and>
   action_id (brain_fallback features_example) = ACTION_SLEEP"
  using brain_fallback_priority_ladder [of features_example]
  by (simp add: features_example_def)

subsection \<open>The online learner\<close>

text \<open>
  Claim C9. With an empty experience queue \<^verbatim>\<open>online_learn_apply\<close> returns false and
  leaves the learner, and so every bias, as it was: no bias is multiplied by the decay
  factor.
\<close>

theorem online_learn_apply_empty:
  assumes "g_buffer_count l = 0"
  shows "online_learn_apply l = (False, l)
         \<and> g_action_biases (snd (online_learn_apply l)) = g_action_biases l"
  using assms by (simp add: online_learn_apply_def)

theorem online_learn_apply_empty_witness:
  "g_buffer_count (learner_fresh\<lparr>g_action_biases := [1, 0, 0, 0, 0, 0, 0, 0]\<rparr>) = 0 \<and>
   fst (online_learn_apply (learner_fresh\<lparr>g_action_biases := [1, 0, 0, 0, 0, 0, 0, 0]\<rparr>))
     = False \<and>
   g_action_biases
     (snd (online_learn_apply (learner_fresh\<lparr>g_action_biases := [1, 0, 0, 0, 0, 0, 0, 0]\<rparr>)))
     = [1, 0, 0, 0, 0, 0, 0, 0]"
proof -
  have h: "g_buffer_count (learner_fresh\<lparr>g_action_biases := [1, 0, 0, 0, 0, 0, 0, 0]\<rparr>) = 0"
    by (simp add: learner_fresh_def)
  show ?thesis
    using h online_learn_apply_empty [OF h] by simp
qed

text \<open>
  Claim C10. When the queue holds its 16 experiences, \<^verbatim>\<open>online_learn_reward\<close> with a
  valid action (below 8) changes nothing: queue, count, biases and reward counter are as
  before. The counter goes up by one exactly when the experience is appended, that is
  when the learner is initialised and the queue holds fewer than 16.
\<close>

theorem online_learn_reward_full_queue:
  assumes "a < 8"
  shows "(g_buffer_count l = 16 \<longrightarrow> online_learn_reward a f l = l)
       \<and> g_total_rewards (online_learn_reward a f l) =
           (if g_initialized l \<and> g_buffer_count l < 16
            then g_total_rewards l + 1 else g_total_rewards l)
       \<and> g_buffer_count (online_learn_reward a f l) =
           (if g_initialized l \<and> g_buffer_count l < 16
            then g_buffer_count l + 1 else g_buffer_count l)"
proof -
  have na: "\<not> 8 \<le> a"
    using assms by simp
  show ?thesis
    using na by (simp add: online_learn_reward_def MAX_BUFFER_SIZE_def)
qed

theorem online_learn_reward_full_queue_witness:
  "(5 :: 8 word) < 8 \<and>
   g_buffer_count (learner_fresh\<lparr>g_buffer_count := 16, g_total_rewards := 16\<rparr>) = 16 \<and>
   online_learn_reward 5 features_example
       (learner_fresh\<lparr>g_buffer_count := 16, g_total_rewards := 16\<rparr>)
     = learner_fresh\<lparr>g_buffer_count := 16, g_total_rewards := 16\<rparr> \<and>
   g_total_rewards (online_learn_reward 5 features_example learner_fresh) = 1"
proof -
  have h: "(5 :: 8 word) < 8"
    by simp
  have c: "g_buffer_count (learner_fresh\<lparr>g_buffer_count := 16, g_total_rewards := 16\<rparr>) = 16"
    by simp
  have a: "online_learn_reward 5 features_example
       (learner_fresh\<lparr>g_buffer_count := 16, g_total_rewards := 16\<rparr>)
     = learner_fresh\<lparr>g_buffer_count := 16, g_total_rewards := 16\<rparr>"
    using online_learn_reward_full_queue [OF h, of
        "learner_fresh\<lparr>g_buffer_count := 16, g_total_rewards := 16\<rparr>" features_example] c
    by blast
  have i: "g_initialized learner_fresh \<and> g_buffer_count learner_fresh < 16"
    by (simp add: learner_fresh_def)
  have b: "g_total_rewards (online_learn_reward 5 features_example learner_fresh)
           = g_total_rewards learner_fresh + 1"
    using online_learn_reward_full_queue [OF h, of learner_fresh features_example] i
    by presburger
  have d: "g_total_rewards learner_fresh = 0"
    by (simp add: learner_fresh_def)
  show ?thesis
    using h c a b d by simp
qed

subsection \<open>The spam score\<close>

lemma clamp01_id: "in01 v \<Longrightarrow> clamp01 v = v"
  by (simp add: in01_def clamp01_def)

lemma spam_score_feed:
  "spam_score (snd (core_state_feed state config stats)) = clamp01 (spam_score stats + 0.15)"
  by (simp add: core_state_feed_def Let_def)

lemma hunger_feed:
  "PetState.hunger (fst (core_state_feed state config stats)) =
     clamp01 (PetState.hunger state
              - feed_hunger_reduction config * (1 - spam_score stats * spam_penalty config))"
  by (simp add: core_state_feed_def Let_def)

lemma clamp01_step: "clamp01 (min 1 (0.15 * real n) + 0.15) = min 1 (0.15 * real (Suc n))"
  by (simp add: clamp01_def min_def)

lemma spam_score_feed_times:
  "spam_score stats = 0 \<Longrightarrow>
   spam_score (snd (feed_times n config (state, stats))) = min 1 (0.15 * real n)"
proof (induction n)
  case 0
  then show ?case by simp
next
  case (Suc n)
  have "spam_score (snd (feed_times (Suc n) config (state, stats))) =
          clamp01 (spam_score (snd (feed_times n config (state, stats))) + 0.15)"
    by (simp add: Let_def spam_score_feed)
  also have "\<dots> = clamp01 (min 1 (0.15 * real n) + 0.15)"
    using Suc by simp
  also have "\<dots> = min 1 (0.15 * real (Suc n))"
    by (rule clamp01_step)
  finally show ?case .
qed

text \<open>
  The decay of \<^verbatim>\<open>core_state_update_stats\<close> is not measured from the previous call of
  the function. The last interaction is at time 0 and the score is 1; the function is
  called at 1000 ms and again at 1500 ms. The first call leaves 0.5. The second call, 500 ms
  after the first, leaves 0: it subtracts 0.0005 for each of the 1500 ms since the
  interaction. A decay of 0.0005 per millisecond over the 500 ms since the previous call
  would leave 0.25.
\<close>

theorem core_state_update_stats_counterexample:
  "spam_score (core_state_update_stats (core_state_stats_init\<lparr>spam_score := 1\<rparr>) 1000) = 0.5 \<and>
   spam_score (core_state_update_stats
      (core_state_update_stats (core_state_stats_init\<lparr>spam_score := 1\<rparr>) 1000) 1500) = 0 \<and>
   clamp01 (0.5 - 0.0005 * real (unat (1500 - 1000 :: 32 word))) = 0.25"
  by (simp add: core_state_update_stats_def core_state_stats_init_def clamp01_def)

text \<open>
  Claim C7, amended. A call of \<^verbatim>\<open>core_state_update_stats\<close> takes the unsigned 32-bit
  difference of the current time and the time of the last interaction. When that gap is
  above 0 and below 60000 ms the spam score becomes the old score minus 0.0005 per
  millisecond of the gap, clamped to [0,1] (for a score in [0,1]: going no lower than 0);
  when the gap is 60000 ms or more, or 0, nothing changes. The time of the last interaction
  is never written by the function, so each call subtracts again for the whole time since
  the interaction.
\<close>

theorem core_state_update_stats_decay:
  "core_state_update_stats stats now =
     (if 0 < now - last_interaction_ms stats \<and> now - last_interaction_ms stats < 60000
      then stats\<lparr>spam_score :=
             clamp01 (spam_score stats
                      - 0.0005 * real (unat (now - last_interaction_ms stats)))\<rparr>
      else stats)
   \<and> (in01 (spam_score stats) \<and> 0 < now - last_interaction_ms stats
        \<and> now - last_interaction_ms stats < 60000 \<longrightarrow>
        spam_score (core_state_update_stats stats now) =
          max 0 (spam_score stats - 0.0005 * real (unat (now - last_interaction_ms stats))))
   \<and> (60000 \<le> now - last_interaction_ms stats \<longrightarrow> core_state_update_stats stats now = stats)
   \<and> last_interaction_ms (core_state_update_stats stats now) = last_interaction_ms stats"
proof -
  have nonneg: "0 \<le> 0.0005 * real (unat (now - last_interaction_ms stats))"
    by (simp del: of_nat_unat)
  have "in01 (spam_score stats) \<Longrightarrow>
          clamp01 (spam_score stats - 0.0005 * real (unat (now - last_interaction_ms stats)))
          = max 0 (spam_score stats - 0.0005 * real (unat (now - last_interaction_ms stats)))"
    using nonneg unfolding clamp01_def in01_def max_def by (auto simp del: of_nat_unat)
  then show ?thesis
    by (auto simp add: core_state_update_stats_def Let_def)
qed

theorem core_state_update_stats_decay_witness:
  "in01 (spam_score (core_state_stats_init\<lparr>spam_score := 1\<rparr>)) \<and>
   (0 :: 32 word) < 1000 - last_interaction_ms (core_state_stats_init\<lparr>spam_score := 1\<rparr>) \<and>
   1000 - last_interaction_ms (core_state_stats_init\<lparr>spam_score := 1\<rparr>) < 60000 \<and>
   spam_score (core_state_update_stats (core_state_stats_init\<lparr>spam_score := 1\<rparr>) 1000) = 0.5 \<and>
   (60000 :: 32 word) \<le> 60000 - last_interaction_ms (core_state_stats_init\<lparr>spam_score := 1\<rparr>) \<and>
   core_state_update_stats (core_state_stats_init\<lparr>spam_score := 1\<rparr>) 60000
     = core_state_stats_init\<lparr>spam_score := 1\<rparr>"
  using core_state_update_stats_decay [of "core_state_stats_init\<lparr>spam_score := 1\<rparr>" 1000]
    core_state_update_stats_decay [of "core_state_stats_init\<lparr>spam_score := 1\<rparr>" 60000]
  by (simp add: core_state_stats_init_def in01_def clamp01_def)

text \<open>
  Three feeds in a row from a spam score of 0 leave the score at 0.45, not at 1. And the
  hunger reduction of a feed does not approach zero: at the highest spam score, 1, a feed
  of a pet with hunger 1 still takes the hunger down to 0.88.
\<close>

theorem feed_spam_counterexample:
  "spam_score (snd (feed_times 3 core_state_config_init
      (core_state_init, core_state_stats_init))) = 0.45 \<and>
   spam_score (snd (feed_times 3 core_state_config_init
      (core_state_init, core_state_stats_init))) \<noteq> 1 \<and>
   PetState.hunger (fst (core_state_feed (core_state_init\<lparr>PetState.hunger := 1\<rparr>)
      core_state_config_init (core_state_stats_init\<lparr>spam_score := 1\<rparr>))) = 0.88"
  by (simp add: eval_nat_numeral Let_def spam_score_feed hunger_feed core_state_stats_init_def
        core_state_init_def core_state_config_init_def clamp01_def)

text \<open>
  Claim C8, amended. Start from a spam score of 0 and feed \<open>n\<close> times in a row under the
  default configuration. The spam score is then the smaller of 1 and 0.15 \<open>n\<close>: 0.45
  after three feeds, and 1 (clamped) from the seventh feed on. The next feed lowers the
  hunger by 0.4 times its effectiveness 1 - 0.7 * spam score (clamped to [0,1]); that
  reduction shrinks with every feed but is never below 0.12.
\<close>

theorem feed_spam_and_effect:
  assumes "spam_score stats = 0"
  shows "spam_score (snd (feed_times n core_state_config_init (state, stats)))
           = min 1 (0.15 * real n)
       \<and> PetState.hunger (fst (feed_times (Suc n) core_state_config_init (state, stats)))
           = clamp01 (PetState.hunger (fst (feed_times n core_state_config_init (state, stats)))
                      - 0.4 * (1 - 0.7 * min 1 (0.15 * real n)))
       \<and> 0.12 \<le> 0.4 * (1 - 0.7 * min 1 (0.15 * real n))"
proof -
  have spam: "spam_score (snd (feed_times n core_state_config_init (state, stats)))
           = min 1 (0.15 * real n)"
    using assms by (rule spam_score_feed_times)
  have "PetState.hunger (fst (feed_times (Suc n) core_state_config_init (state, stats)))
      = clamp01 (PetState.hunger (fst (feed_times n core_state_config_init (state, stats)))
           - 0.4 * (1 - spam_score (snd (feed_times n core_state_config_init (state, stats)))
                        * 0.7))"
    by (simp add: Let_def hunger_feed core_state_config_init_def)
  then have hung: "PetState.hunger (fst (feed_times (Suc n) core_state_config_init (state, stats)))
      = clamp01 (PetState.hunger (fst (feed_times n core_state_config_init (state, stats)))
           - 0.4 * (1 - 0.7 * min 1 (0.15 * real n)))"
    unfolding spam by (simp add: mult.commute)
  have low: "(0.12 :: real) \<le> 0.4 * (1 - 0.7 * min 1 (0.15 * real n))"
    by (simp add: min_def)
  show ?thesis
    using spam hung low by blast
qed

theorem feed_spam_and_effect_witness:
  "spam_score core_state_stats_init = 0 \<and>
   spam_score (snd (feed_times 3 core_state_config_init
      (core_state_init, core_state_stats_init))) = 0.45 \<and>
   spam_score (snd (feed_times 7 core_state_config_init
      (core_state_init, core_state_stats_init))) = 1"
proof -
  have h: "spam_score core_state_stats_init = 0"
    by (simp add: core_state_stats_init_def)
  show ?thesis
    using h feed_spam_and_effect [OF h, of 3 core_state_init]
      feed_spam_and_effect [OF h, of 7 core_state_init]
    by simp
qed

subsection \<open>The event journal\<close>

lemma records_write_entry: "records c (write_entry c e)"
  by (cases c) (simp add: Let_def split: option.splits)

lemma records_complete:
  "complete_call c \<Longrightarrow> records c e \<Longrightarrow> e = entry_of c"
  by (cases c) (auto simp: entry_of_def Let_def log_entry_zero_def)

lemma slot_distinct:
  fixes j n :: nat
  assumes "j < n" and "n - j < 100"
  shows "j mod 100 \<noteq> n mod 100"
proof
  assume "j mod 100 = n mod 100"
  then have "n mod 100 = j mod 100"
    by simp
  with assms(1) have "100 dvd n - j"
    by (simp add: mod_eq_dvd_iff_nat)
  moreover have "0 < n - j"
    using assms(1) by simp
  ultimately have "100 \<le> n - j"
    by (rule dvd_imp_le)
  with assms(2) show False
    by simp
qed

lemma journal_inv_init:
  "length (Logger.g_buffer lg0) = 100 \<Longrightarrow> journal_inv [] (logger_init lg0)"
  by (simp add: journal_inv_def logger_init_def)

lemma journal_inv_step:
  assumes inv: "journal_inv cs lg"
  shows "journal_inv (cs @ [c]) (logger_log_event c lg)"
proof -
  let ?n = "length cs"
  let ?lg' = "logger_log_event c lg"
  let ?e = "write_entry c (Logger.g_buffer lg ! (?n mod 100))"
  from inv have init: "Logger.g_initialized lg" and len: "length (Logger.g_buffer lg) = 100"
    and cnt: "g_count lg = min ?n 100" and hd: "g_head lg = ?n mod 100"
    and slots: "\<And>j. j < ?n \<Longrightarrow> ?n - j \<le> 100 \<Longrightarrow>
                  records (cs ! j) (Logger.g_buffer lg ! (j mod 100))"
    by (simp_all add: journal_inv_def)
  have buf': "Logger.g_buffer ?lg' = (Logger.g_buffer lg)[?n mod 100 := ?e]"
    using init hd by (simp add: logger_log_event_def Let_def)
  have head': "g_head ?lg' = (?n + 1) mod 100"
    using init hd by (simp add: logger_log_event_def Let_def LOG_MAX_EVENTS_def mod_Suc_eq)
  have count': "g_count ?lg' = min (?n + 1) 100"
    using init cnt by (auto simp add: logger_log_event_def Let_def LOG_MAX_EVENTS_def min_def)
  have init': "Logger.g_initialized ?lg'"
    using init by (simp add: logger_log_event_def Let_def)
  have slots': "records ((cs @ [c]) ! j) (Logger.g_buffer ?lg' ! (j mod 100))"
    if j: "j < ?n + 1" "?n + 1 - j \<le> 100" for j
  proof (cases "j = ?n")
    case True
    then show ?thesis using len by (simp add: buf' records_write_entry)
  next
    case False
    with j have lt: "j < ?n" and near: "?n - j < 100" by simp_all
    then have "j mod 100 \<noteq> ?n mod 100" by (intro slot_distinct)
    then have "Logger.g_buffer ?lg' ! (j mod 100) = Logger.g_buffer lg ! (j mod 100)"
      by (simp add: buf')
    moreover have "records (cs ! j) (Logger.g_buffer lg ! (j mod 100))"
      using lt near by (intro slots) simp_all
    ultimately show ?thesis using lt by (simp add: nth_append)
  qed
  show ?thesis
    unfolding journal_inv_def
    using init' len buf' head' count' slots' by simp
qed

lemma log_all_snoc: "log_all (cs @ [c]) lg = logger_log_event c (log_all cs lg)"
  by (simp add: log_all_def)

lemma journal_inv_log_all:
  assumes "length (Logger.g_buffer lg0) = 100"
  shows "journal_inv cs (log_all cs (logger_init lg0))"
proof (induction cs rule: rev_induct)
  case Nil
  then show ?case using assms by (simp add: log_all_def journal_inv_init)
next
  case (snoc c cs)
  then show ?case by (simp add: log_all_snoc journal_inv_step)
qed

lemma journal_get_event:
  assumes inv: "journal_inv cs lg" and i: "i < min (length cs) 100"
  shows "\<exists>e. logger_get_event i lg = Some e
             \<and> records (cs ! (length cs - min (length cs) 100 + i)) e"
proof (cases "length cs < 100")
  case True
  with inv i show ?thesis
    by (simp add: journal_inv_def logger_get_event_def LOG_MAX_EVENTS_def Let_def)
next
  case False
  let ?n = "length cs"
  let ?j = "?n - 100 + i"
  from False i have j: "?j < ?n" "?n - ?j \<le> 100" by simp_all
  have "(?n mod 100 + i) mod 100 = (?n + i) mod 100"
    by (simp add: mod_add_left_eq)
  also have "?n + i = ?j + 100"
    using False by simp
  finally have pos: "(?n mod 100 + i) mod 100 = ?j mod 100"
    by simp
  from inv j have slot: "records (cs ! ?j) (Logger.g_buffer lg ! (?j mod 100))"
    by (simp add: journal_inv_def)
  from inv False have st: "Logger.g_initialized lg" "g_count lg = 100" "g_head lg = ?n mod 100"
    by (simp_all add: journal_inv_def)
  from i have i100: "i < 100"
    by simp
  have get: "logger_get_event i lg = Some (Logger.g_buffer lg ! (?j mod 100))"
    using st i100 by (simp add: logger_get_event_def LOG_MAX_EVENTS_def Let_def pos)
  have "?j = ?n - min ?n 100 + i"
    using False by simp
  with get slot show ?thesis
    by simp
qed

text \<open>
  Claim C6. The journal holds at most 100 records: after any run of calls from an
  initialised journal the count is the smaller of the number of calls and 100. Reading by
  index gives the surviving records oldest first: index \<open>i\<close> holds an entry that records
  the call at position \<open>length cs - count + i\<close> (and is exactly the entry of that call
  when the call passed all its pointers), so once the journal is full every append has
  overwritten the oldest record; an index at or beyond the count is refused. After 150
  calls the journal holds 100 records and index 0 records the call at position 50, the
  51st.
\<close>

theorem journal_ring_buffer:
  assumes "length (Logger.g_buffer lg0) = 100"
  shows "logger_get_count (log_all cs (logger_init lg0)) = min (length cs) 100
       \<and> (\<forall>i < min (length cs) 100.
             \<exists>e. logger_get_event i (log_all cs (logger_init lg0)) = Some e
                  \<and> records (cs ! (length cs - min (length cs) 100 + i)) e
                  \<and> (complete_call (cs ! (length cs - min (length cs) 100 + i)) \<longrightarrow>
                       e = entry_of (cs ! (length cs - min (length cs) 100 + i))))
       \<and> (\<forall>i \<ge> min (length cs) 100.
             logger_get_event i (log_all cs (logger_init lg0)) = None)
       \<and> (length cs = 150 \<longrightarrow>
             logger_get_count (log_all cs (logger_init lg0)) = 100
             \<and> (\<exists>e. logger_get_event 0 (log_all cs (logger_init lg0)) = Some e
                     \<and> records (cs ! 50) e))"
proof -
  let ?lg = "log_all cs (logger_init lg0)"
  have inv: "journal_inv cs ?lg"
    using assms by (rule journal_inv_log_all)
  then have count: "logger_get_count ?lg = min (length cs) 100"
    by (simp add: journal_inv_def logger_get_count_def)
  have get: "\<exists>e. logger_get_event i ?lg = Some e
                  \<and> records (cs ! (length cs - min (length cs) 100 + i)) e
                  \<and> (complete_call (cs ! (length cs - min (length cs) 100 + i)) \<longrightarrow>
                       e = entry_of (cs ! (length cs - min (length cs) 100 + i)))"
    if "i < min (length cs) 100" for i
    using journal_get_event [OF inv that] records_complete by blast
  have refuse: "logger_get_event i ?lg = None" if "i \<ge> min (length cs) 100" for i
    using inv that by (simp add: journal_inv_def logger_get_event_def)
  have at150: "logger_get_count ?lg = 100
               \<and> (\<exists>e. logger_get_event 0 ?lg = Some e \<and> records (cs ! 50) e)"
    if "length cs = 150"
    using count journal_get_event [OF inv, of 0] that by simp
  show ?thesis
    using count get refuse at150 by blast
qed

theorem journal_ring_buffer_witness:
  "length (Logger.g_buffer logger_boot) = 100 \<and> length journal_example = 150 \<and>
   logger_get_count (log_all journal_example (logger_init logger_boot)) = 100 \<and>
   map_option timestamp (logger_get_event 0 (log_all journal_example (logger_init logger_boot)))
     = Some 50"
proof -
  have h1: "length (Logger.g_buffer logger_boot) = 100"
    by (simp add: logger_boot_def)
  have len: "length journal_example = 150"
    by (simp add: journal_example_def)
  have e50: "records (journal_example ! 50) e \<Longrightarrow> timestamp e = 50" for e
    by (simp add: journal_example_def)
  show ?thesis
    using h1 len e50 journal_ring_buffer [OF h1, of journal_example]
    by auto
qed

subsection \<open>Loading a model\<close>

lemma expected_size_value: "expected_size + 4 = 1516"
  by (simp add: expected_size_def BRAIN_INPUT_SIZE_def BRAIN_HIDDEN_SIZE_def
        BRAIN_OUTPUT_SIZE_def)

lemma brain_load_weights_reject:
  "size' < 1516 \<Longrightarrow> brain_load_weights b data size' = (False, b)"
  by (simp add: brain_load_weights_def expected_size_value)

lemma brain_load_weights_accept:
  assumes "1516 \<le> size'"
  shows "fst (brain_load_weights b data size')"
    and "g_custom_model_loaded (snd (brain_load_weights b data size'))"
    and "g_model_version (snd (brain_load_weights b data size')) = read_u32 data 0"
    and "g_weights (snd (brain_load_weights b data size')) =
           \<lparr>w1 = map (\<lambda>i. map (\<lambda>j. fdata data (i * 16 + j)) [0..<16]) [0..<12],
            b1 = map (\<lambda>j. fdata data (192 + j)) [0..<16],
            w2 = map (\<lambda>i. map (\<lambda>j. fdata data (208 + i * 10 + j)) [0..<10]) [0..<16],
            b2 = map (\<lambda>j. fdata data (368 + j)) [0..<10]\<rparr>"
proof -
  have ok: "\<not> size' < expected_size + 4"
    using assms by (simp add: expected_size_value)
  show "fst (brain_load_weights b data size')"
    using ok by (simp add: brain_load_weights_def Let_def)
  show "g_custom_model_loaded (snd (brain_load_weights b data size'))"
    using ok by (simp add: brain_load_weights_def Let_def)
  show "g_model_version (snd (brain_load_weights b data size')) = read_u32 data 0"
    using ok by (simp add: brain_load_weights_def Let_def)
  show "g_weights (snd (brain_load_weights b data size')) =
           \<lparr>w1 = map (\<lambda>i. map (\<lambda>j. fdata data (i * 16 + j)) [0..<16]) [0..<12],
            b1 = map (\<lambda>j. fdata data (192 + j)) [0..<16],
            w2 = map (\<lambda>i. map (\<lambda>j. fdata data (208 + i * 10 + j)) [0..<10]) [0..<16],
            b2 = map (\<lambda>j. fdata data (368 + j)) [0..<10]\<rparr>"
    using ok
    by (simp add: brain_load_weights_def Let_def BRAIN_INPUT_SIZE_def BRAIN_HIDDEN_SIZE_def
          BRAIN_OUTPUT_SIZE_def add.assoc)
qed


lemma on_model_uploaded_reject:
  "size' < 1516 \<Longrightarrow> on_model_uploaded (b, fb) data size' ok = (b, fb)"
  by (simp add: on_model_uploaded_def brain_load_weights_reject)

lemma on_model_uploaded_accept:
  "1516 \<le> size' \<Longrightarrow>
   on_model_uploaded (b, fb) data size' True = (snd (brain_load_weights b data size'), False)"
  by (simp add: on_model_uploaded_def brain_load_weights_accept(1) Let_def)

text \<open>
  Claim C4. The serialised size of the 12-16-10 topology is 4 + 4 * 378 = 1516 bytes.
  \<^verbatim>\<open>brain_load_weights\<close> returns true exactly when the buffer length is at least 1516.
  For a shorter buffer, so for one of 1515 bytes, it returns false and the engine (weights,
  version, loaded flag) is unchanged, and the caller leaves its fallback flag as it was. A
  successful load sets the version to the first four bytes, sets the loaded flag, and
  replaces every weight and bias by the float at its place in the buffer, whatever the
  weights were before; the caller then switches to the learned decision.
\<close>

theorem brain_load_weights_size_check:
  "(fst (brain_load_weights b data size') \<longleftrightarrow> 1516 \<le> size')
   \<and> expected_size + 4 = 1516
   \<and> (size' < 1516 \<longrightarrow>
        brain_load_weights b data size' = (False, b)
        \<and> on_model_uploaded (b, fb) data size' ok = (b, fb))
   \<and> brain_load_weights b data 1515 = (False, b)
   \<and> (1516 \<le> size' \<longrightarrow>
        g_custom_model_loaded (snd (brain_load_weights b data size'))
        \<and> g_model_version (snd (brain_load_weights b data size')) = read_u32 data 0
        \<and> g_weights (snd (brain_load_weights b data size')) =
             \<lparr>w1 = map (\<lambda>i. map (\<lambda>j. fdata data (i * 16 + j)) [0..<16]) [0..<12],
              b1 = map (\<lambda>j. fdata data (192 + j)) [0..<16],
              w2 = map (\<lambda>i. map (\<lambda>j. fdata data (208 + i * 10 + j)) [0..<10]) [0..<16],
              b2 = map (\<lambda>j. fdata data (368 + j)) [0..<10]\<rparr>
        \<and> g_weights (snd (brain_load_weights b data size'))
            = g_weights (snd (brain_load_weights b' data size'))
        \<and> on_model_uploaded (b, fb) data size' True
            = (snd (brain_load_weights b data size'), False))"
proof -
  have iff: "fst (brain_load_weights b data size') \<longleftrightarrow> 1516 \<le> size'"
  proof (cases "size' < 1516")
    case True
    then show ?thesis by (simp add: brain_load_weights_reject)
  next
    case False
    then show ?thesis by (simp add: brain_load_weights_accept(1))
  qed
  have short: "brain_load_weights b data 1515 = (False, b)"
    by (rule brain_load_weights_reject) simp
  have same: "g_weights (snd (brain_load_weights b data size'))
            = g_weights (snd (brain_load_weights b' data size'))" if "1516 \<le> size'"
    using that by (simp only: brain_load_weights_accept(4))
  show ?thesis
    using iff expected_size_value short same
      brain_load_weights_reject [of size' b data] on_model_uploaded_reject [of size' b fb data ok]
      brain_load_weights_accept(2-4) [of size' b data]
      on_model_uploaded_accept [of size' b fb data]
    by blast
qed

theorem brain_load_weights_size_check_witness:
  "brain_load_weights brain_example (replicate 1515 1) 1515 = (False, brain_example) \<and>
   fst (brain_load_weights brain_example (replicate 1516 1) 1516) \<and>
   g_model_version (snd (brain_load_weights brain_example (replicate 1516 1) 1516))
     = 0x01010101 \<and>
   b2 (g_weights (snd (brain_load_weights brain_example (replicate 1516 1) 1516))) ! 9
     = 0x01010101 \<and>
   \<not> snd (on_model_uploaded (brain_example, True) (replicate 1516 1) 1516 True)"
proof -
  have v: "read_u32 (replicate 1516 1) 0 = 0x01010101"
    by (simp add: read_u32_def)
  have f: "\<And>k. k < 378 \<Longrightarrow> fdata (replicate 1516 1) k = 0x01010101"
    by (simp add: fdata_def read_u32_def)
  have bs: "map (\<lambda>j. fdata (replicate 1516 1) (368 + j)) [0..<10] ! 9 = 0x01010101"
    by (simp add: f del: upt.simps)
  show ?thesis
    using v bs
      brain_load_weights_size_check
        [of brain_example "replicate 1516 1" 1516 True True brain_example]
      brain_load_weights_size_check
        [of brain_example "replicate 1515 1" 1515 True True brain_example]
    by simp
qed

subsection \<open>The learned decision\<close>

lemma forward_sleepy:
  "brain_forward weights_sleepy (features_array f) = [3, 0, 0, 0, 0, 0, 0, 0, 0, 1 / 2]"
  by (simp add: brain_forward_def weights_sleepy_def weights_const_def Let_def
        BRAIN_INPUT_SIZE_def BRAIN_HIDDEN_SIZE_def BRAIN_OUTPUT_SIZE_def BRAIN_ACTION_COUNT_def
        eval_nat_numeral relu_def tanh_f_def sigmoid_def features_array_def)


lemma fold_add_8:
  "fold (\<lambda>e s. s + e) [a0, a1, a2, a3, a4, a5, a6, a7] (0 :: real)
     = a0 + a1 + a2 + a3 + a4 + a5 + a6 + a7"
  by simp

lemma softmax_sleepy:
  "softmax [3, 0, 0, 0, 0, 0, 0, 0, 0, 1 / 2] 8 =
     [1 / (1 + 7 * exp (- 3)), exp (- 3) / (1 + 7 * exp (- 3)),
      exp (- 3) / (1 + 7 * exp (- 3)), exp (- 3) / (1 + 7 * exp (- 3)),
      exp (- 3) / (1 + 7 * exp (- 3)), exp (- 3) / (1 + 7 * exp (- 3)),
      exp (- 3) / (1 + 7 * exp (- 3)), exp (- 3) / (1 + 7 * exp (- 3)), 0, 1 / 2]"
  by (simp add: softmax_def Let_def eval_nat_numeral)

lemma upt_0_8: "[0..<8] = [0, 1, 2, 3, 4, 5, 6, 7]"
  by (simp add: upt_rec)

lemma add_biases_happy:
  "add_biases learner_happy [p0, p1, p2, p3, p4, p5, p6, p7, v, a]
     = [p0, p1, p2, p3, p4, p5 + 1.5, p6, p7, v, a]"
  by (simp add: add_biases_def learner_happy_def online_learn_get_bias_def
        BRAIN_ACTION_COUNT_def upt_0_8 del: upt.simps)

lemma scan_picks_5:
  assumes "p \<le> p0" and "p0 < q" and "p < q"
  shows "best_action_scan [p0, p, p, p, p, q, p, p, v, a] = (5, q)"
  using assms by (simp add: best_action_scan_def BRAIN_ACTION_COUNT_def eval_nat_numeral)

lemma scan_picks_0:
  assumes "p1 \<le> p0" "p2 \<le> p0" "p3 \<le> p0" "p4 \<le> p0" "p5 \<le> p0" "p6 \<le> p0" "p7 \<le> p0"
  shows "best_action_scan [p0, p1, p2, p3, p4, p5, p6, p7, v, a] = (0, p0)"
  using assms by (simp add: best_action_scan_def BRAIN_ACTION_COUNT_def eval_nat_numeral)


lemma softmax_biased:
  "softmax [3, 0, 0, 0, 0, 3 / 2, 0, 0, 0, 1 / 2] 8 =
     [1 / (1 + 6 * exp (- 3) + exp (- (3 / 2))),
      exp (- 3) / (1 + 6 * exp (- 3) + exp (- (3 / 2))),
      exp (- 3) / (1 + 6 * exp (- 3) + exp (- (3 / 2))),
      exp (- 3) / (1 + 6 * exp (- 3) + exp (- (3 / 2))),
      exp (- 3) / (1 + 6 * exp (- 3) + exp (- (3 / 2))),
      exp (- (3 / 2)) / (1 + 6 * exp (- 3) + exp (- (3 / 2))),
      exp (- 3) / (1 + 6 * exp (- 3) + exp (- (3 / 2))),
      exp (- 3) / (1 + 6 * exp (- 3) + exp (- (3 / 2))), 0, 1 / 2]"
  by (simp add: softmax_def Let_def eval_nat_numeral)

lemma infer_sleepy_happy:
  "action_id (brain_infer learner_happy weights_sleepy f) = ACTION_HAPPY"
proof -
  define e :: real where "e = exp (- 3)"
  define S :: real where "S = 1 + 7 * e"
  have e: "0 < e" "e \<le> 1"
    by (simp_all add: e_def)
  have S: "1 \<le> S"
    using e by (simp add: S_def)
  have p: "e / S \<le> 1 / S"
    using e S by (simp add: divide_right_mono)
  have p0: "1 / S \<le> 1"
    using S by simp
  have nonneg: "0 \<le> e / S"
    using e S by simp
  have raw: "add_biases learner_happy (brain_infer_raw weights_sleepy (features_array f))
      = [1 / S, e / S, e / S, e / S, e / S, e / S + 1.5, e / S, e / S, 0, 1 / 2]"
    by (simp only: brain_infer_raw_def forward_sleepy BRAIN_ACTION_COUNT_def softmax_sleepy
          add_biases_happy S_def e_def)
  have "best_action_scan [1 / S, e / S, e / S, e / S, e / S, e / S + 1.5, e / S, e / S, 0, 1 / 2]
      = (5, e / S + 1.5)"
    using p p0 nonneg by (intro scan_picks_5) simp_all
  then show ?thesis
    by (simp add: brain_infer_def Let_def raw action_of_index_def)
qed

lemma infer_spec_sleepy_happy:
  "action_id (brain_infer_spec learner_happy weights_sleepy f) = ACTION_SLEEP"
proof -
  define e :: real where "e = exp (- 3)"
  define h :: real where "h = exp (- (3 / 2))"
  define S :: real where "S = 1 + 6 * e + h"
  have e: "0 < e" "e \<le> 1" and h: "0 < h" "h \<le> 1"
    by (simp_all add: e_def h_def)
  have S: "0 < S"
    using e h by (simp add: S_def add_pos_pos)
  have pe: "e / S \<le> 1 / S" and ph: "h / S \<le> 1 / S"
    using e h S by (simp_all add: divide_right_mono)
  have biased: "add_biases learner_happy (brain_forward weights_sleepy (features_array f))
      = [3, 0, 0, 0, 0, 3 / 2, 0, 0, 0, 1 / 2]"
    by (simp add: forward_sleepy add_biases_happy)
  have probs: "softmax (add_biases learner_happy
                  (brain_forward weights_sleepy (features_array f))) BRAIN_ACTION_COUNT
      = [1 / S, e / S, e / S, e / S, e / S, h / S, e / S, e / S, 0, 1 / 2]"
    by (simp only: biased BRAIN_ACTION_COUNT_def softmax_biased S_def e_def h_def)
  have "best_action_scan [1 / S, e / S, e / S, e / S, e / S, h / S, e / S, e / S, 0, 1 / 2]
      = (0, 1 / S)"
    using pe ph by (intro scan_picks_0)
  then show ?thesis
    by (simp add: brain_infer_spec_def Let_def probs action_of_index_def)
qed


text \<open>
  The scan finds the first maximum: no entry of the eight is greater than the chosen one,
  and every entry before it is strictly smaller.
\<close>

lemma scan_invariant:
  fixes v :: "real list"
  defines "f \<equiv> (\<lambda>i (best_action, best_prob).
             if v ! i > best_prob then (i, v ! i) else (best_action, best_prob))"
  shows "fst (fold f [1..<Suc n] (0, v ! 0)) < Suc n
       \<and> snd (fold f [1..<Suc n] (0, v ! 0)) = v ! fst (fold f [1..<Suc n] (0, v ! 0))
       \<and> (\<forall>j < Suc n. v ! j \<le> snd (fold f [1..<Suc n] (0, v ! 0)))
       \<and> (\<forall>j < fst (fold f [1..<Suc n] (0, v ! 0)). v ! j < snd (fold f [1..<Suc n] (0, v ! 0)))"
proof (induction n)
  case 0
  show ?case by simp
next
  case (Suc n)
  obtain k p where kp: "fold f [1..<Suc n] (0, v ! 0) = (k, p)"
    by (cases "fold f [1..<Suc n] (0, v ! 0)")
  have "[1..<Suc (Suc n)] = [1..<Suc n] @ [Suc n]"
    by (rule upt_Suc_append) simp
  then have step: "fold f [1..<Suc (Suc n)] (0, v ! 0) = f (Suc n) (k, p)"
    by (simp only: fold_append o_apply kp fold_simps)
  from Suc.IH [unfolded kp]
  have ih: "k < Suc n" "p = v ! k" "\<forall>j < Suc n. v ! j \<le> p" "\<forall>j < k. v ! j < p"
    by auto
  show ?case
  proof (cases "v ! Suc n > p")
    case True
    then have "f (Suc n) (k, p) = (Suc n, v ! Suc n)"
      by (simp add: f_def)
    moreover have "\<forall>j < Suc (Suc n). v ! j \<le> v ! Suc n"
      using ih(3) True by (auto simp: less_Suc_eq)
    moreover have "\<forall>j < Suc n. v ! j < v ! Suc n"
      using ih(3) True by fastforce
    ultimately show ?thesis
      unfolding step by simp
  next
    case False
    then have "f (Suc n) (k, p) = (k, p)"
      by (simp add: f_def)
    moreover have "\<forall>j < Suc (Suc n). v ! j \<le> p"
      using ih(3) False by (auto simp: less_Suc_eq)
    ultimately show ?thesis
      using ih unfolding step by simp
  qed
qed

lemma best_action_scan_first_max:
  "fst (best_action_scan v) < 8
   \<and> snd (best_action_scan v) = v ! fst (best_action_scan v)
   \<and> (\<forall>j < 8. v ! j \<le> v ! fst (best_action_scan v))
   \<and> (\<forall>j < fst (best_action_scan v). v ! j < v ! fst (best_action_scan v))"
proof -
  have eq: "fold (\<lambda>i (best_action, best_prob).
             if v ! i > best_prob then (i, v ! i) else (best_action, best_prob))
           [1..<Suc 7] (0, v ! 0) = best_action_scan v"
    by (simp add: best_action_scan_def BRAIN_ACTION_COUNT_def)
  from scan_invariant [of v 7] show ?thesis
    unfolding eq by auto
qed

text \<open>
  Claim C3. The claim has the learner's bias added to the eight action logits before the
  softmax, and the action chosen as the first maximum after it. The comment on
  \<^verbatim>\<open>g_action_biases\<close> says the same (added to the model output before softmax), but
  \<^verbatim>\<open>brain_infer\<close> adds the bias to what \<^verbatim>\<open>brain_infer_raw\<close> returns, which is
  already the softmax. The two orders choose different actions: with logits 3 for sleep and
  0 for the seven others, and a bias of 1.5 for happy, the source chooses happy (no
  probability exceeds 1, so the bias decides), while the claimed order chooses sleep
  (3 exceeds 1.5). The features do not matter here, all weights being zero.
\<close>

theorem brain_infer_bias_after_softmax:
  "action_id (brain_infer learner_happy weights_sleepy features_example) = ACTION_HAPPY
   \<and> action_id (brain_infer_spec learner_happy weights_sleepy features_example) = ACTION_SLEEP"
  by (simp only: infer_sleepy_happy infer_spec_sleepy_happy)

subsection \<open>Gestures\<close>

lemma gesture_step_level:
  "current_state (fst (gesture_step config i now d st)) = d"
  by (simp add: gesture_step_def Let_def)

lemma gesture_step_press:
  assumes "\<not> current_state st"
  shows "gesture_step config i now True st =
           (st\<lparr>current_state := True, press_start_ms := now,
               press_count := press_count st + 1\<rparr>, [])"
  using assms by (simp add: gesture_step_def Let_def)

lemma gesture_step_hold:
  assumes "current_state st"
  shows "gesture_step config i now True st = (st, [])"
  using assms by (simp add: gesture_step_def Let_def)

lemma gesture_step_release_long:
  assumes "current_state st" and "now - press_start_ms st \<ge> ucast (long_press_ms config)"
  shows "gesture_step config i now False st =
           (st\<lparr>current_state := False, press_count := 0, pending_event := False\<rparr>,
            [\<lparr>button = i, gesture = GESTURE_LONG, timestamp_ms = now\<rparr>])"
  using assms by (simp add: gesture_step_def Let_def)

lemma gesture_step_release_second:
  assumes "current_state st" and "now - press_start_ms st < ucast (long_press_ms config)"
    and "press_count st \<ge> 2"
  shows "gesture_step config i now False st =
           (st\<lparr>current_state := False, release_time_ms := now, press_count := 0,
               pending_event := False\<rparr>,
            [\<lparr>button = i, gesture = GESTURE_DOUBLE, timestamp_ms = now\<rparr>])"
  using assms by (simp add: gesture_step_def Let_def not_le [symmetric])

lemma gesture_step_release_first:
  assumes "current_state st" and "now - press_start_ms st < ucast (long_press_ms config)"
    and "press_count st < 2" and "(0 :: 32 word) < ucast (double_press_ms config)"
  shows "gesture_step config i now False st =
           (st\<lparr>current_state := False, release_time_ms := now, pending_event := True\<rparr>, [])"
  using assms by (simp add: gesture_step_def Let_def not_le [symmetric])

lemma gesture_step_wait:
  assumes "\<not> current_state st" and "pending_event st" and "press_count st < 2"
    and "now - release_time_ms st < ucast (double_press_ms config)"
  shows "gesture_step config i now False st = (st, [])"
  using assms by (simp add: gesture_step_def Let_def not_le [symmetric])


text \<open>
  \<^verbatim>\<open>buttons_update\<close> does to each button what \<open>button_step\<close> does, and the events
  it emits for a button are those of the button's step.
\<close>

lemma gesture_step_button: "e \<in> set (snd (gesture_step config i now d st)) \<Longrightarrow> button e = i"
  by (auto simp add: gesture_step_def Let_def split: if_splits)

lemma button_step_button: "e \<in> set (snd (button_step config i now raw st)) \<Longrightarrow> button e = i"
  by (simp add: button_step_def Let_def gesture_step_button)

lemma fold_emit_event_fields:
  "g_state (fold emit_event es bs) = g_state bs"
  "g_config (fold emit_event es bs) = g_config bs"
  by (induction es arbitrary: bs) (simp_all add: emit_event_def)

lemma buttons_update_button:
  "g_state (fst (buttons_update now raw bs)) i
     = fst (button_step (g_config bs) i now (raw i) (g_state bs i))
   \<and> filter (\<lambda>e. button e = i) (fst (snd (buttons_update now raw bs)))
     = snd (button_step (g_config bs) i now (raw i) (g_state bs i))
   \<and> g_config (fst (buttons_update now raw bs)) = g_config bs"
proof -
  have keep: "filter (\<lambda>e. button e = j) (snd (button_step config j t a st))
                = snd (button_step config j t a st)" for config j t a st
    by (simp add: filter_id_conv button_step_button)
  have drop: "j \<noteq> k \<Longrightarrow>
      filter (\<lambda>e. button e = k) (snd (button_step config j t a st)) = []" for config j k t a st
    by (auto simp add: filter_empty_conv dest: button_step_button)
  show ?thesis
    by (cases i)
       (simp_all add: buttons_update_def update_button_def Let_def fold_emit_event_fields
          keep drop)
qed

text \<open>Debouncing touches only the two debounce fields.\<close>

lemma debounce_fields:
  "current_state (fst (debounce config now raw st)) = current_state st"
  "press_start_ms (fst (debounce config now raw st)) = press_start_ms st"
  "press_count (fst (debounce config now raw st)) = press_count st"
  "pending_event (fst (debounce config now raw st)) = pending_event st"
  "release_time_ms (fst (debounce config now raw st)) = release_time_ms st"
  by (simp_all add: debounce_def Let_def)

lemma button_step_level:
  "current_state (fst (button_step config i now raw st)) = snd (debounce config now raw st)"
  by (simp add: button_step_def Let_def gesture_step_level)

lemma step_idle_press:
  assumes "idle st" and "current_state (fst (button_step config i now raw st))"
  shows "snd (button_step config i now raw st) = []
         \<and> first_held now (fst (button_step config i now raw st))"
proof -
  let ?s1 = "fst (debounce config now raw st)"
  have d: "snd (debounce config now raw st) = True"
    using assms(2) by (simp add: button_step_level)
  have "\<not> current_state ?s1"
    using assms(1) by (simp add: idle_def debounce_fields)
  then have "gesture_step config i now True ?s1 =
      (?s1\<lparr>current_state := True, press_start_ms := now, press_count := press_count ?s1 + 1\<rparr>, [])"
    by (rule gesture_step_press)
  then show ?thesis
    using assms(1) d by (simp add: button_step_def Let_def idle_def first_held_def debounce_fields)
qed

lemma step_first_hold:
  assumes "first_held t st" and "current_state (fst (button_step config i now raw st))"
  shows "snd (button_step config i now raw st) = []
         \<and> first_held t (fst (button_step config i now raw st))"
proof -
  let ?s1 = "fst (debounce config now raw st)"
  have d: "snd (debounce config now raw st) = True"
    using assms(2) by (simp add: button_step_level)
  have "current_state ?s1"
    using assms(1) by (simp add: first_held_def debounce_fields)
  then have "gesture_step config i now True ?s1 = (?s1, [])"
    by (rule gesture_step_hold)
  then show ?thesis
    using assms(1) d by (simp add: button_step_def Let_def first_held_def debounce_fields)
qed

lemma step_first_release:
  assumes "first_held t st" and "\<not> current_state (fst (button_step config i now raw st))"
    and "now - t < ucast (long_press_ms config)"
    and "(0 :: 32 word) < ucast (double_press_ms config)"
  shows "snd (button_step config i now raw st) = []
         \<and> released_waiting now (fst (button_step config i now raw st))"
proof -
  let ?s1 = "fst (debounce config now raw st)"
  have d: "snd (debounce config now raw st) = False"
    using assms(2) by (simp add: button_step_level)
  have "gesture_step config i now False ?s1 =
      (?s1\<lparr>current_state := False, release_time_ms := now, pending_event := True\<rparr>, [])"
    using assms(1,3,4) by (intro gesture_step_release_first) (simp_all add: first_held_def debounce_fields)
  then show ?thesis
    using assms(1) d
    by (simp add: button_step_def Let_def first_held_def released_waiting_def debounce_fields)
qed

lemma step_wait:
  assumes "released_waiting t st" and "\<not> current_state (fst (button_step config i now raw st))"
    and "now - t < ucast (double_press_ms config)"
  shows "snd (button_step config i now raw st) = []
         \<and> released_waiting t (fst (button_step config i now raw st))"
proof -
  let ?s1 = "fst (debounce config now raw st)"
  have d: "snd (debounce config now raw st) = False"
    using assms(2) by (simp add: button_step_level)
  have "gesture_step config i now False ?s1 = (?s1, [])"
    using assms(1,3) by (intro gesture_step_wait) (simp_all add: released_waiting_def debounce_fields)
  then show ?thesis
    using assms(1) d by (simp add: button_step_def Let_def released_waiting_def debounce_fields)
qed

lemma step_second_press:
  assumes "released_waiting t st" and "current_state (fst (button_step config i now raw st))"
  shows "snd (button_step config i now raw st) = []
         \<and> second_held now (fst (button_step config i now raw st))"
proof -
  let ?s1 = "fst (debounce config now raw st)"
  have d: "snd (debounce config now raw st) = True"
    using assms(2) by (simp add: button_step_level)
  have "\<not> current_state ?s1"
    using assms(1) by (simp add: released_waiting_def debounce_fields)
  then have "gesture_step config i now True ?s1 =
      (?s1\<lparr>current_state := True, press_start_ms := now, press_count := press_count ?s1 + 1\<rparr>, [])"
    by (rule gesture_step_press)
  then show ?thesis
    using assms(1) d
    by (simp add: button_step_def Let_def released_waiting_def second_held_def debounce_fields)
qed

lemma step_second_hold:
  assumes "second_held t st" and "current_state (fst (button_step config i now raw st))"
  shows "snd (button_step config i now raw st) = []
         \<and> second_held t (fst (button_step config i now raw st))"
proof -
  let ?s1 = "fst (debounce config now raw st)"
  have d: "snd (debounce config now raw st) = True"
    using assms(2) by (simp add: button_step_level)
  have "current_state ?s1"
    using assms(1) by (simp add: second_held_def debounce_fields)
  then have "gesture_step config i now True ?s1 = (?s1, [])"
    by (rule gesture_step_hold)
  then show ?thesis
    using assms(1) d by (simp add: button_step_def Let_def second_held_def debounce_fields)
qed

lemma step_second_release:
  assumes "second_held t st" and "\<not> current_state (fst (button_step config i now raw st))"
    and "now - t < ucast (long_press_ms config)"
  shows "snd (button_step config i now raw st)
           = [\<lparr>button = i, gesture = GESTURE_DOUBLE, timestamp_ms = now\<rparr>]
         \<and> idle (fst (button_step config i now raw st))"
proof -
  let ?s1 = "fst (debounce config now raw st)"
  have d: "snd (debounce config now raw st) = False"
    using assms(2) by (simp add: button_step_level)
  have "gesture_step config i now False ?s1 =
      (?s1\<lparr>current_state := False, release_time_ms := now, press_count := 0,
            pending_event := False\<rparr>,
       [\<lparr>button = i, gesture = GESTURE_DOUBLE, timestamp_ms = now\<rparr>])"
    using assms(1,3) by (intro gesture_step_release_second) (simp_all add: second_held_def debounce_fields)
  then show ?thesis
    using d by (simp add: button_step_def Let_def idle_def)
qed

lemma step_second_release_long:
  assumes "second_held t st" and "\<not> current_state (fst (button_step config i now raw st))"
    and "now - t \<ge> ucast (long_press_ms config)"
  shows "snd (button_step config i now raw st)
           = [\<lparr>button = i, gesture = GESTURE_LONG, timestamp_ms = now\<rparr>]
         \<and> idle (fst (button_step config i now raw st))"
proof -
  let ?s1 = "fst (debounce config now raw st)"
  have d: "snd (debounce config now raw st) = False"
    using assms(2) by (simp add: button_step_level)
  have "gesture_step config i now False ?s1 =
      (?s1\<lparr>current_state := False, press_count := 0, pending_event := False\<rparr>,
       [\<lparr>button = i, gesture = GESTURE_LONG, timestamp_ms = now\<rparr>])"
    using assms(1,3) by (intro gesture_step_release_long) (simp_all add: second_held_def debounce_fields)
  then show ?thesis
    using d by (simp add: button_step_def Let_def idle_def)
qed


lemma trace_levels_Cons:
  "trace_levels (button_trace config i ((now, raw) # xs) st) =
     current_state (fst (button_step config i now raw st))
     # trace_levels (button_trace config i xs (fst (button_step config i now raw st)))"
  by (simp add: trace_levels_def Let_def)

lemma trace_events_Cons:
  "trace_events (button_trace config i ((now, raw) # xs) st) =
     snd (button_step config i now raw st)
     @ trace_events (button_trace config i xs (fst (button_step config i now raw st)))"
  by (simp add: trace_events_def Let_def)

lemma trace_events_Nil: "trace_events (button_trace config i [] st) = []"
  by (simp add: trace_events_def)

text \<open>
  A stretch of updates during which the level stays at \<open>lvl\<close> and a station \<open>P\<close> is
  kept without events: the run passes through it unchanged.
\<close>

lemma phase_stays:
  assumes step: "\<And>st now raw. P st \<Longrightarrow> Q now
            \<Longrightarrow> current_state (fst (button_step config i now raw st)) = lvl
            \<Longrightarrow> snd (button_step config i now raw st) = []
                \<and> P (fst (button_step config i now raw st))"
    and "P st"
    and "trace_levels (button_trace config i (xs @ rest) st) = replicate (length xs) lvl @ L"
    and "\<forall>(t, a) \<in> set xs. Q t"
  shows "P (button_run config i xs st)
       \<and> trace_levels (button_trace config i rest (button_run config i xs st)) = L
       \<and> trace_events (button_trace config i (xs @ rest) st)
           = trace_events (button_trace config i rest (button_run config i xs st))
       \<and> button_run config i (xs @ rest) st
           = button_run config i rest (button_run config i xs st)"
  using assms(2-4)
proof (induction xs arbitrary: st)
  case Nil
  then show ?case by simp
next
  case (Cons x xs)
  obtain now raw where x: "x = (now, raw)"
    by (cases x)
  let ?st' = "fst (button_step config i now raw st)"
  from Cons.prems(2) have lvl: "current_state ?st' = lvl"
    and rest: "trace_levels (button_trace config i (xs @ rest) ?st') = replicate (length xs) lvl @ L"
    by (simp_all add: x trace_levels_Cons del: button_trace.simps)
  from Cons.prems(3) have q: "Q now" and qs: "\<forall>(t, a) \<in> set xs. Q t"
    by (simp_all add: x)
  from step [OF Cons.prems(1) q lvl]
  have ev: "snd (button_step config i now raw st) = []" and p: "P ?st'"
    by simp_all
  from Cons.IH [OF p rest qs] show ?case
    by (simp add: x trace_events_Cons ev del: button_trace.simps)
qed


lemma default_thresholds:
  "ucast (long_press_ms buttons_config_init) = (500 :: 32 word)"
  "ucast (double_press_ms buttons_config_init) = (300 :: 32 word)"
  "ucast (debounce_ms buttons_config_init) = (50 :: 32 word)"
  by (simp_all add: buttons_config_init_def)

text \<open>
  Claim C5, amended. Take the default thresholds (long press 500 ms, double-press window
  300 ms) and a button with no sequence under way. Let the debounced level of the button
  go up at the update at \<open>t1\<close>, stay up, go down at \<open>t2\<close> with \<open>t2 - t1\<close> below
  500 ms, stay down over updates that all come less than 300 ms after \<open>t2\<close>, go up again
  at \<open>t3\<close>, stay up, and go down at \<open>t4\<close>. Then the whole run emits exactly one
  gesture, at \<open>t4\<close>, and leaves no sequence under way: the gesture is a double one when
  the second press was shorter than 500 ms, and a long one otherwise. No short gesture is
  emitted for either press.
\<close>

theorem double_press_gesture:
  assumes idle0: "idle st0"
    and xs: "xs = (t1, a1) # hold1 @ (t2, a2) # wait @ (t3, a3) # hold2 @ [(t4, a4)]"
    and levels: "trace_levels (button_trace buttons_config_init i xs st0) =
        True # replicate (length hold1) True @ False # replicate (length wait) False
          @ True # replicate (length hold2) True @ [False]"
    and first_short: "t2 - t1 < 500"
    and in_window: "\<forall>(t, a) \<in> set wait. t - t2 < 300"
  shows "trace_events (button_trace buttons_config_init i xs st0)
           = [\<lparr>button = i,
               gesture = (if t4 - t3 < 500 then GESTURE_DOUBLE else GESTURE_LONG),
               timestamp_ms = t4\<rparr>]
       \<and> idle (button_run buttons_config_init i xs st0)"
proof -
  let ?c = buttons_config_init
  let ?r1 = "(t2, a2) # wait @ (t3, a3) # hold2 @ [(t4, a4)]"
  let ?r2 = "(t3, a3) # hold2 @ [(t4, a4)]"
  let ?r3 = "[(t4, a4)]"
  \<comment> \<open>the first press begins\<close>
  let ?s1 = "fst (button_step ?c i t1 a1 st0)"
  from levels have l1: "current_state ?s1"
    and lv1: "trace_levels (button_trace ?c i (hold1 @ ?r1) ?s1) =
        replicate (length hold1) True @ False # replicate (length wait) False
          @ True # replicate (length hold2) True @ [False]"
    by (simp_all add: xs trace_levels_Cons del: button_trace.simps)
  from step_idle_press [OF idle0 l1]
  have e1: "snd (button_step ?c i t1 a1 st0) = []" and p1: "first_held t1 ?s1"
    by simp_all
  \<comment> \<open>it is held\<close>
  let ?s2 = "button_run ?c i hold1 ?s1"
  have "first_held t1 ?s2
       \<and> trace_levels (button_trace ?c i ?r1 ?s2) =
           False # replicate (length wait) False @ True # replicate (length hold2) True @ [False]
       \<and> trace_events (button_trace ?c i (hold1 @ ?r1) ?s1)
           = trace_events (button_trace ?c i ?r1 ?s2)
       \<and> button_run ?c i (hold1 @ ?r1) ?s1 = button_run ?c i ?r1 ?s2"
    by (rule phase_stays [where P = "first_held t1" and Q = "\<lambda>t. True" and lvl = True])
       (simp_all add: step_first_hold p1 lv1)
  then have p2: "first_held t1 ?s2"
    and lv2: "trace_levels (button_trace ?c i ?r1 ?s2) =
           False # replicate (length wait) False @ True # replicate (length hold2) True @ [False]"
    and ev2: "trace_events (button_trace ?c i (hold1 @ ?r1) ?s1)
           = trace_events (button_trace ?c i ?r1 ?s2)"
    and run2: "button_run ?c i (hold1 @ ?r1) ?s1 = button_run ?c i ?r1 ?s2"
    by simp_all
  \<comment> \<open>it is released before the long-press threshold\<close>
  let ?s3 = "fst (button_step ?c i t2 a2 ?s2)"
  from lv2 have l3: "\<not> current_state ?s3"
    and lv3: "trace_levels (button_trace ?c i (wait @ ?r2) ?s3) =
        replicate (length wait) False @ True # replicate (length hold2) True @ [False]"
    by (simp_all add: trace_levels_Cons del: button_trace.simps)
  from step_first_release [OF p2 l3] first_short
  have e3: "snd (button_step ?c i t2 a2 ?s2) = []" and p3: "released_waiting t2 ?s3"
    by (simp_all add: default_thresholds)
  \<comment> \<open>the updates inside the double-press window\<close>
  let ?s4 = "button_run ?c i wait ?s3"
  have "released_waiting t2 ?s4
       \<and> trace_levels (button_trace ?c i ?r2 ?s4) = True # replicate (length hold2) True @ [False]
       \<and> trace_events (button_trace ?c i (wait @ ?r2) ?s3)
           = trace_events (button_trace ?c i ?r2 ?s4)
       \<and> button_run ?c i (wait @ ?r2) ?s3 = button_run ?c i ?r2 ?s4"
    by (rule phase_stays [where P = "released_waiting t2" and Q = "\<lambda>t. t - t2 < 300"
          and lvl = False])
       (simp_all add: step_wait default_thresholds p3 lv3 in_window)
  then have p4: "released_waiting t2 ?s4"
    and lv4: "trace_levels (button_trace ?c i ?r2 ?s4)
               = True # replicate (length hold2) True @ [False]"
    and ev4: "trace_events (button_trace ?c i (wait @ ?r2) ?s3)
           = trace_events (button_trace ?c i ?r2 ?s4)"
    and run4: "button_run ?c i (wait @ ?r2) ?s3 = button_run ?c i ?r2 ?s4"
    by simp_all
  \<comment> \<open>the second press begins\<close>
  let ?s5 = "fst (button_step ?c i t3 a3 ?s4)"
  from lv4 have l5: "current_state ?s5"
    and lv5: "trace_levels (button_trace ?c i (hold2 @ ?r3) ?s5) =
        replicate (length hold2) True @ [False]"
    by (simp_all add: trace_levels_Cons del: button_trace.simps)
  from step_second_press [OF p4 l5]
  have e5: "snd (button_step ?c i t3 a3 ?s4) = []" and p5: "second_held t3 ?s5"
    by simp_all
  \<comment> \<open>it is held\<close>
  let ?s6 = "button_run ?c i hold2 ?s5"
  have "second_held t3 ?s6
       \<and> trace_levels (button_trace ?c i ?r3 ?s6) = [False]
       \<and> trace_events (button_trace ?c i (hold2 @ ?r3) ?s5)
           = trace_events (button_trace ?c i ?r3 ?s6)
       \<and> button_run ?c i (hold2 @ ?r3) ?s5 = button_run ?c i ?r3 ?s6"
    by (rule phase_stays [where P = "second_held t3" and Q = "\<lambda>t. True" and lvl = True])
       (simp_all add: step_second_hold p5 lv5)
  then have p6: "second_held t3 ?s6"
    and lv6: "trace_levels (button_trace ?c i ?r3 ?s6) = [False]"
    and ev6: "trace_events (button_trace ?c i (hold2 @ ?r3) ?s5)
           = trace_events (button_trace ?c i ?r3 ?s6)"
    and run6: "button_run ?c i (hold2 @ ?r3) ?s5 = button_run ?c i ?r3 ?s6"
    by simp_all
  \<comment> \<open>it is released: the double gesture, or the long one for a long second press\<close>
  let ?s7 = "fst (button_step ?c i t4 a4 ?s6)"
  let ?g = "if t4 - t3 < 500 then GESTURE_DOUBLE else GESTURE_LONG"
  from lv6 have l7: "\<not> current_state ?s7"
    by (simp add: trace_levels_Cons del: button_trace.simps)
  have "snd (button_step ?c i t4 a4 ?s6) = [\<lparr>button = i, gesture = ?g, timestamp_ms = t4\<rparr>]
        \<and> idle ?s7"
  proof (cases "t4 - t3 < 500")
    case True
    with step_second_release [OF p6 l7] show ?thesis
      by (simp add: default_thresholds)
  next
    case False
    with step_second_release_long [OF p6 l7] show ?thesis
      by (simp add: default_thresholds not_less)
  qed
  then have e7: "snd (button_step ?c i t4 a4 ?s6)
              = [\<lparr>button = i, gesture = ?g, timestamp_ms = t4\<rparr>]"
    and p7: "idle ?s7"
    by simp_all
  have "trace_events (button_trace ?c i xs st0)
      = trace_events (button_trace ?c i (hold1 @ ?r1) ?s1)"
    by (simp add: xs trace_events_Cons e1 del: button_trace.simps)
  also have "\<dots> = trace_events (button_trace ?c i (wait @ ?r2) ?s3)"
    by (simp add: ev2 trace_events_Cons e3 del: button_trace.simps)
  also have "\<dots> = trace_events (button_trace ?c i (hold2 @ ?r3) ?s5)"
    by (simp add: ev4 trace_events_Cons e5 del: button_trace.simps)
  also have "\<dots> = [\<lparr>button = i, gesture = ?g, timestamp_ms = t4\<rparr>]"
    by (simp only: ev6 trace_events_Cons e7 trace_events_Nil append_Nil2)
  finally have events: "trace_events (button_trace ?c i xs st0)
      = [\<lparr>button = i, gesture = ?g, timestamp_ms = t4\<rparr>]" .
  have "button_run ?c i xs st0 = button_run ?c i (hold1 @ ?r1) ?s1"
    by (simp add: xs)
  also have "\<dots> = button_run ?c i (wait @ ?r2) ?s3"
    by (simp add: run2)
  also have "\<dots> = button_run ?c i (hold2 @ ?r3) ?s5"
    by (simp add: run4)
  also have "\<dots> = ?s7"
    by (simp add: run6)
  finally have "idle (button_run ?c i xs st0)"
    using p7 by simp
  with events show ?thesis
    by simp
qed


theorem double_press_gesture_witness:
  "idle (button_run buttons_config_init BUTTON_FEED [(100, True)] button_state_init) \<and>
   trace_events (button_trace buttons_config_init BUTTON_FEED
      [(150, True), (200, False), (250, False), (300, True), (350, True), (400, False),
       (450, False)]
      (button_run buttons_config_init BUTTON_FEED [(100, True)] button_state_init))
     = [\<lparr>button = BUTTON_FEED, gesture = GESTURE_DOUBLE, timestamp_ms = 450\<rparr>]"
proof -
  let ?st0 = "button_run buttons_config_init BUTTON_FEED [(100, True)] button_state_init"
  let ?xs = "[(150, True), (200, False), (250, False), (300, True), (350, True), (400, False),
       (450 :: 32 word, False)]"
  have h1: "idle ?st0"
    by code_simp
  have h2: "?xs = (150, True) # [(200, False)] @ (250, False) # [(300, True)]
              @ (350, True) # [(400, False)] @ [(450, False)]"
    by simp
  have h3: "trace_levels (button_trace buttons_config_init BUTTON_FEED ?xs ?st0) =
        True # replicate (length [(200 :: 32 word, False)]) True
          @ False # replicate (length [(300 :: 32 word, True)]) False
          @ True # replicate (length [(400 :: 32 word, False)]) True @ [False]"
    by code_simp
  have h4: "(250 :: 32 word) - 150 < 500"
    by simp
  have h5: "\<forall>(t, a) \<in> set [(300 :: 32 word, True)]. t - 250 < 300"
    by simp
  show ?thesis
    using h1 double_press_gesture [OF h1 h2 h3 h4 h5] by simp
qed

text \<open>
  A second press that begins 100 ms after the release of a short first press, but is
  held for 600 ms: the level goes up at 150, down at 250, up at 350 and down at 950. The
  only gesture of the whole run is a long one; no double gesture is emitted.
\<close>

theorem double_press_counterexample:
  "trace_levels (button_trace buttons_config_init BUTTON_FEED samples_short_then_long
      button_state_init) = [False, True, True, False, False, True, True, False]
   \<and> trace_events (button_trace buttons_config_init BUTTON_FEED samples_short_then_long
      button_state_init)
     = [\<lparr>button = BUTTON_FEED, gesture = GESTURE_LONG, timestamp_ms = 950\<rparr>]
   \<and> idle (button_run buttons_config_init BUTTON_FEED samples_short_then_long
      button_state_init)"
  by code_simp

end
